theory Spec2Isabelle
  imports Main "HOL-Library.Word"
begin

section \<open>Values of the Go runtime and of the libraries used by server.go\<close>

text \<open>
  A Go \<^verbatim>\<open>error\<close> is either built by \<^verbatim>\<open>fmt.Errorf\<close> in server.go itself (the formatted
  message is kept) or comes out of a library call (opaque; the text stands for whatever the
  library reports). The zero value \<^verbatim>\<open>nil\<close> of an error is \<open>None\<close> of \<open>error option\<close>.
\<close>

datatype error = Errorf string | LibError string

text \<open>
  Modelled from the spec: \<^verbatim>\<open>log.Fatale\<close> belongs to github.com/hlandau/xlog and is not part
  of the source file. The spec describes it as fatal-log-and-exit: given an error that is not
  nil it logs it and terminates the process, given nil it does nothing. \<open>Fatale err\<close> holds
  when the call terminates the process.
\<close>

definition Fatale :: "error option \<Rightarrow> bool" where
  "Fatale err \<longleftrightarrow> err \<noteq> None"

text \<open>
  A function that may end in \<^verbatim>\<open>log.Fatale\<close> either terminates the process or returns to its
  caller.
\<close>

datatype 'a result = Exit | Return 'a

type_synonym IP = "8 word list"

datatype os_File = File string

record DNSKEY =
  Algorithm :: nat
  KeyTag :: nat
  PublicKeyMaterial :: string

datatype RR = RR_DNSKEY DNSKEY | RR_Other string

datatype crypto_PrivateKey = PrivKey string

datatype backend = BackendHandle nat

datatype engine = EngineHandle nat

text \<open>
  \<^verbatim>\<open>cookieRetriever(path)\<close> returns a closure over the path it is given; the closure is
  represented by that path.
\<close>

datatype auth = cookieRetriever string

record Conn =
  Username :: string
  Password :: string
  Server :: string
  GetAuth :: "auth option"

subsection \<open>strings.Split with the separator ","\<close>

text \<open>
  Go's \<^verbatim>\<open>strings.Split(s, sep)\<close> for a one-byte separator: the substrings between the
  separators, in order; \<open>n\<close> separators give \<open>n + 1\<close> substrings, so the empty string gives
  one empty substring. server.go calls it with \<^verbatim>\<open>","\<close> only.
\<close>

fun Split :: "string \<Rightarrow> char \<Rightarrow> string list" where
  "Split [] sep = [[]]"
| "Split (c # cs) sep =
     (if c = sep then [] # Split cs sep
      else (case Split cs sep of [] \<Rightarrow> [[c]] | t # ts \<Rightarrow> (c # t) # ts))"

subsection \<open>dns.Fqdn\<close>

text \<open>
  Modelled from the spec: \<^verbatim>\<open>dns.Fqdn\<close> belongs to github.com/miekg/dns and is not part of
  the source file. The spec says of it: each entry is fully qualified (trailing-dot form),
  the trailing dot being added iff absent.
\<close>

definition Fqdn :: "string \<Rightarrow> string" where
  "Fqdn s = (if s \<noteq> [] \<and> last s = CHR ''.'' then s else s @ ''.'')"

section \<open>Config and Server\<close>

text \<open>
  The struct \<^verbatim>\<open>Config\<close> with all its fields. The two unexported fields
  \<^verbatim>\<open>canonicalNameservers\<close> and \<^verbatim>\<open>vanityIPs\<close> hold the normalized lists; a caller outside
  the package cannot set them, so they are nil (\<open>[]\<close>) in a configuration handed to \<^verbatim>\<open>New\<close>.
\<close>

record Config =
  Bind :: string
  PublicKey :: string
  PrivateKey :: string
  ZonePublicKey :: string
  ZonePrivateKey :: string
  NamecoinRPCUsername :: string
  NamecoinRPCPassword :: string
  NamecoinRPCAddress :: string
  NamecoinRPCCookiePath :: string
  CacheMaxEntries :: int
  SelfName :: string
  SelfIP :: string
  HTTPListenAddr :: string
  CanonicalSuffix :: string
  CanonicalNameservers :: string
  canonicalNameservers :: "string list"
  Hostmaster :: string
  VanityIPs :: string
  vanityIPs :: "IP list"
  TplSet :: string
  TplPath :: string
  ConfigDir :: string


datatype TCPAddr = TCPAddr string

datatype UDPAddr = UDPAddr string

datatype TCPListener = TCPListener TCPAddr

datatype UDPConn = UDPConn UDPAddr

text \<open>
  \<^verbatim>\<open>dns.ServeMux\<close>: the registered patterns with their handlers. The only handler server.go
  registers is the engine.
\<close>

type_synonym ServeMux = "(string \<times> engine) list"

text \<open>
  The closure \<^verbatim>\<open>func() { s.wgStart.Done() }\<close> that \<^verbatim>\<open>runListener\<close> stores in
  \<^verbatim>\<open>NotifyStartedFunc\<close>.
\<close>

datatype callback = wgStart_Done

record dns_Server =
  Addr :: string
  Net :: string
  Handler :: "ServeMux option"
  Listener :: "TCPListener option"
  PacketConn :: "UDPConn option"
  NotifyStartedFunc :: "callback option"

text \<open>
  The struct \<^verbatim>\<open>Server\<close>. \<open>wgStart\<close> is the counter of the \<^verbatim>\<open>sync.WaitGroup\<close>; pointers and
  interfaces are options, \<open>None\<close> being nil.
\<close>

record Server =
  cfg :: Config
  engine :: "engine option"
  namecoinConn :: Conn
  mux :: "ServeMux option"
  udpServer :: "dns_Server option"
  udpConn :: "UDPConn option"
  tcpServer :: "dns_Server option"
  tcpListener :: "TCPListener option"
  wgStart :: int

record backend_Config =
  be_NamecoinConn :: Conn
  be_CacheMaxEntries :: int
  be_SelfIP :: string
  be_Hostmaster :: string
  be_CanonicalNameservers :: "string list"
  be_VanityIPs :: "IP list"

record EngineConfig =
  Backend :: backend
  VersionString :: string
  KSK :: "DNSKEY option"
  KSKPrivate :: "crypto_PrivateKey option"
  ZSK :: "DNSKEY option"
  ZSKPrivate :: "crypto_PrivateKey option"

section \<open>The environment: libraries, collaborators, file system and network\<close>

text \<open>
  Everything \<^verbatim>\<open>New\<close> and \<^verbatim>\<open>loadKey\<close> call outside server.go is a parameter: the
  result each call gives for its arguments. A Go call returning \<^verbatim>\<open>(value, error)\<close> is a sum,
  \<open>Inl\<close> the non-nil error. \<^verbatim>\<open>dns.ReadRR\<close> returns a nil record with a nil error on a file
  without a record, hence the option. \<^verbatim>\<open>webStart\<close> and \<^verbatim>\<open>cookieRetriever\<close> are functions
  of the package defined outside server.go.
\<close>

record env =
  buildinfo_VersionSummary :: "string \<Rightarrow> string \<Rightarrow> string"
  net_ParseIP :: "string \<Rightarrow> IP option"
  filepath_Join :: "string \<Rightarrow> string \<Rightarrow> string"
  backend_New :: "backend_Config \<Rightarrow> error + backend"
  os_Open :: "string \<Rightarrow> error + os_File"
  dns_ReadRR :: "os_File \<Rightarrow> string \<Rightarrow> error + RR option"
  ReadPrivateKey :: "DNSKEY \<Rightarrow> os_File \<Rightarrow> string \<Rightarrow> error + crypto_PrivateKey option"
  madns_NewEngine :: "EngineConfig \<Rightarrow> error + engine"
  net_ResolveTCPAddr :: "string \<Rightarrow> string \<Rightarrow> error + TCPAddr"
  net_ListenTCP :: "string \<Rightarrow> TCPAddr \<Rightarrow> error + TCPListener"
  net_ResolveUDPAddr :: "string \<Rightarrow> string \<Rightarrow> error + UDPAddr"
  net_ListenUDP :: "string \<Rightarrow> UDPAddr \<Rightarrow> error + UDPConn"
  webStart :: "string \<Rightarrow> Server \<Rightarrow> error option"

text \<open>
  The state of the process that construction can change: the package-level variable
  \<^verbatim>\<open>ncdnsVersion\<close>, the calls made to the outside so far (in order), and the sockets that
  are bound and open. server.go never closes a socket.
\<close>

datatype call =
    Call_backend_New backend_Config
  | Call_os_Open string
  | Call_NewEngine EngineConfig
  | Call_ResolveTCPAddr string
  | Call_ListenTCP TCPAddr
  | Call_ResolveUDPAddr string
  | Call_ListenUDP UDPAddr
  | Call_webStart string

datatype socket = TCPSocket TCPListener | UDPSocket UDPConn

record world =
  ncdnsVersion :: string
  calls :: "call list"
  sockets :: "socket list"

section \<open>Construction: New and loadKey\<close>

definition cpath :: "env \<Rightarrow> Config \<Rightarrow> string \<Rightarrow> string" where
  "cpath E c s = filepath_Join E (ConfigDir c) s"

text \<open>
  The loop of lines 89 to 91, \<^verbatim>\<open>for i := range xs { xs[i] = dns.Fqdn(xs[i]) }\<close>, from
  index \<open>i\<close> on.
\<close>

function fqdnLoop :: "nat \<Rightarrow> string list \<Rightarrow> string list" where
  "fqdnLoop i xs = (if i < length xs then fqdnLoop (Suc i) (xs[i := Fqdn (xs ! i)]) else xs)"
  by pat_completeness auto
termination
  by (relation "measure (\<lambda>(i, xs). length xs - i)") auto

text \<open>
  The loop of lines 96 to 102 over the tokens still to be read; \<open>acc\<close> is
  \<^verbatim>\<open>s.cfg.vanityIPs\<close>. An unparsable token returns from \<^verbatim>\<open>New\<close> at once.
\<close>

fun vanityLoop :: "env \<Rightarrow> string list \<Rightarrow> IP list \<Rightarrow> error + IP list" where
  "vanityLoop E [] acc = Inr acc"
| "vanityLoop E (ips # rest) acc =
     (case net_ParseIP E ips of
        None \<Rightarrow> Inl (Errorf (''Couldn't parse IP: '' @ ips))
      | Some ip \<Rightarrow> vanityLoop E rest (acc @ [ip]))"

text \<open>
  Lines 74 to 103 of \<^verbatim>\<open>New\<close>: the server value is built from a copy of the configuration,
  the cookie retriever is chosen, and the two comma-separated lists are normalized. \<open>Inl\<close> is
  the \<^verbatim>\<open>return nil, fmt.Errorf(...)\<close> of line 99.
\<close>

definition New_config :: "env \<Rightarrow> Config \<Rightarrow> error + Server" where
  "New_config E c =
    (let s0 = \<lparr>cfg = c, engine = None,
               namecoinConn = \<lparr>Username = NamecoinRPCUsername c,
                               Password = NamecoinRPCPassword c,
                               Server = NamecoinRPCAddress c,
                               GetAuth = None\<rparr>,
               mux = None, udpServer = None, udpConn = None,
               tcpServer = None, tcpListener = None, wgStart = 0\<rparr>;
         s1 = (if NamecoinRPCCookiePath (cfg s0) \<noteq> []
               then s0\<lparr>namecoinConn := (namecoinConn s0)
                         \<lparr>GetAuth := Some (cookieRetriever (NamecoinRPCCookiePath (cfg s0)))\<rparr>\<rparr>
               else s0);
         s2 = (if CanonicalNameservers (cfg s1) \<noteq> []
               then s1\<lparr>cfg := (cfg s1)
                         \<lparr>canonicalNameservers :=
                            fqdnLoop 0 (Split (CanonicalNameservers (cfg s1)) CHR '','')\<rparr>\<rparr>
               else s1)
     in if VanityIPs (cfg s2) \<noteq> []
        then (case vanityLoop E (Split (VanityIPs (cfg s2)) CHR '','') (vanityIPs (cfg s2)) of
                Inl e \<Rightarrow> Inl e
              | Inr ips \<Rightarrow> Inr (s2\<lparr>cfg := (cfg s2)\<lparr>vanityIPs := ips\<rparr>\<rparr>))
        else Inr s2)"

text \<open>
  \<^verbatim>\<open>loadKey\<close> returns the named results \<^verbatim>\<open>(k, privatek, err)\<close>. The four early returns give
  back the error; the error of \<^verbatim>\<open>k.ReadPrivateKey\<close> goes to \<^verbatim>\<open>log.Fatale\<close> before
  the final \<^verbatim>\<open>return\<close>. A record that is nil or not a DNSKEY fails the type assertion
  of line 193. Neither file is closed.
\<close>

definition loadKey ::
  "env \<Rightarrow> Server \<Rightarrow> string \<Rightarrow> string \<Rightarrow> world \<Rightarrow>
     (DNSKEY option \<times> crypto_PrivateKey option \<times> error option) result \<times> world" where
  "loadKey E s fn0 privateFn0 w =
    (let fn = cpath E (cfg s) fn0;
         privateFn = cpath E (cfg s) privateFn0;
         w1 = w\<lparr>calls := calls w @ [Call_os_Open fn]\<rparr>
     in case os_Open E fn of
          Inl e \<Rightarrow> (Return (None, None, Some e), w1)
        | Inr f \<Rightarrow>
           (case dns_ReadRR E f fn of
              Inl e \<Rightarrow> (Return (None, None, Some e), w1)
            | Inr rr \<Rightarrow>
               (case rr of
                  Some (RR_DNSKEY k) \<Rightarrow>
                    (let w2 = w1\<lparr>calls := calls w1 @ [Call_os_Open privateFn]\<rparr>
                     in case os_Open E privateFn of
                          Inl e \<Rightarrow> (Return (Some k, None, Some e), w2)
                        | Inr privatef \<Rightarrow>
                           (let (privatek, err) =
                                  (case ReadPrivateKey E k privatef privateFn of
                                     Inl e \<Rightarrow> (None, Some e)
                                   | Inr pk \<Rightarrow> (pk, None))
                            in if Fatale err then (Exit, w2)
                               else (Return (Some k, privatek, err), w2)))
                | _ \<Rightarrow>
                    (Return (None, None,
                       Some (Errorf ''Loaded record from key file, but it wasn't a DNSKEY'')),
                     w1))))"

text \<open>
  Lines 123 to 128 of \<^verbatim>\<open>New\<close>: the KSK pair is loaded into \<^verbatim>\<open>ecfg\<close> when its public-key
  path is not empty; otherwise nothing is done. \<open>Inl\<close> is the \<^verbatim>\<open>return nil, err\<close>.
\<close>

definition New_KSK ::
  "env \<Rightarrow> Config \<Rightarrow> Server \<Rightarrow> EngineConfig \<Rightarrow> world \<Rightarrow>
     (error + EngineConfig) result \<times> world" where
  "New_KSK E c s ecfg w =
    (if PublicKey c \<noteq> []
     then (case loadKey E s (PublicKey c) (PrivateKey c) w of
             (Exit, w1) \<Rightarrow> (Exit, w1)
           | (Return (k, privatek, err), w1) \<Rightarrow>
               (case err of
                  Some e \<Rightarrow> (Return (Inl e), w1)
                | None \<Rightarrow> (Return (Inr (ecfg\<lparr>KSK := k, KSKPrivate := privatek\<rparr>)), w1)))
     else (Return (Inr ecfg), w))"

text \<open>Lines 130 to 135 of \<^verbatim>\<open>New\<close>: the same for the ZSK pair.\<close>

definition New_ZSK ::
  "env \<Rightarrow> Config \<Rightarrow> Server \<Rightarrow> EngineConfig \<Rightarrow> world \<Rightarrow>
     (error + EngineConfig) result \<times> world" where
  "New_ZSK E c s ecfg w =
    (if ZonePublicKey c \<noteq> []
     then (case loadKey E s (ZonePublicKey c) (ZonePrivateKey c) w of
             (Exit, w1) \<Rightarrow> (Exit, w1)
           | (Return (k, privatek, err), w1) \<Rightarrow>
               (case err of
                  Some e \<Rightarrow> (Return (Inl e), w1)
                | None \<Rightarrow> (Return (Inr (ecfg\<lparr>ZSK := k, ZSKPrivate := privatek\<rparr>)), w1)))
     else (Return (Inr ecfg), w))"

text \<open>
  Lines 122 to 139 of \<^verbatim>\<open>New\<close>: the key setup, KSK first, then ZSK, then the check that a
  KSK does not come without a ZSK.
\<close>

definition New_keys ::
  "env \<Rightarrow> Config \<Rightarrow> Server \<Rightarrow> EngineConfig \<Rightarrow> world \<Rightarrow>
     (error + EngineConfig) result \<times> world" where
  "New_keys E c s ecfg w =
    (case New_KSK E c s ecfg w of
       (Exit, w1) \<Rightarrow> (Exit, w1)
     | (Return (Inl e), w1) \<Rightarrow> (Return (Inl e), w1)
     | (Return (Inr ecfg1), w1) \<Rightarrow>
        (case New_ZSK E c s ecfg1 w1 of
           (Exit, w2) \<Rightarrow> (Exit, w2)
         | (Return (Inl e), w2) \<Rightarrow> (Return (Inl e), w2)
         | (Return (Inr ecfg2), w2) \<Rightarrow>
            (if KSK ecfg2 \<noteq> None \<and> ZSK ecfg2 = None
             then (Return (Inl (Errorf ''Must specify ZSK if KSK is specified'')), w2)
             else (Return (Inr ecfg2), w2))))"

text \<open>
  Lines 149 to 176 of \<^verbatim>\<open>New\<close>: the addresses are resolved and the two sockets bound, then
  the web frontend is started if configured. Every failure here is a bare \<^verbatim>\<open>return\<close>,
  which gives back the named results: the server built so far together with the error.
\<close>

definition New_listen ::
  "env \<Rightarrow> Config \<Rightarrow> Server \<Rightarrow> world \<Rightarrow> (Server option \<times> error option) result \<times> world" where
  "New_listen E c s w =
    (let w1 = w\<lparr>calls := calls w @ [Call_ResolveTCPAddr (Bind (cfg s))]\<rparr>
     in case net_ResolveTCPAddr E ''tcp'' (Bind (cfg s)) of
          Inl e \<Rightarrow> (Return (Some s, Some e), w1)
        | Inr tcpAddr \<Rightarrow>
           (let w2 = w1\<lparr>calls := calls w1 @ [Call_ListenTCP tcpAddr]\<rparr>
            in case net_ListenTCP E ''tcp'' tcpAddr of
                 Inl e \<Rightarrow> (Return (Some (s\<lparr>tcpListener := None\<rparr>), Some e), w2)
               | Inr l \<Rightarrow>
                  (let s1 = s\<lparr>tcpListener := Some l\<rparr>;
                       w3 = w2\<lparr>sockets := sockets w2 @ [TCPSocket l],
                               calls := calls w2 @ [Call_ResolveUDPAddr (Bind (cfg s))]\<rparr>
                   in case net_ResolveUDPAddr E ''udp'' (Bind (cfg s1)) of
                        Inl e \<Rightarrow> (Return (Some s1, Some e), w3)
                      | Inr udpAddr \<Rightarrow>
                         (let w4 = w3\<lparr>calls := calls w3 @ [Call_ListenUDP udpAddr]\<rparr>
                          in case net_ListenUDP E ''udp'' udpAddr of
                               Inl e \<Rightarrow> (Return (Some (s1\<lparr>udpConn := None\<rparr>), Some e), w4)
                             | Inr u \<Rightarrow>
                                (let s2 = s1\<lparr>udpConn := Some u\<rparr>;
                                     w5 = w4\<lparr>sockets := sockets w4 @ [UDPSocket u]\<rparr>
                                 in if HTTPListenAddr c \<noteq> []
                                    then (Return (Some s2, webStart E (HTTPListenAddr c) s2),
                                          w5\<lparr>calls := calls w5 @ [Call_webStart (HTTPListenAddr c)]\<rparr>)
                                    else (Return (Some s2, None), w5))))))"

text \<open>
  The struct literal of lines 105 to 112, the configuration handed to \<^verbatim>\<open>backend.New\<close>.
  It reads the caller's \<^verbatim>\<open>cfg\<close> and the server's normalized copy.
\<close>

definition backendConfig :: "Config \<Rightarrow> Server \<Rightarrow> backend_Config" where
  "backendConfig c s =
    \<lparr>be_NamecoinConn = namecoinConn s,
     be_CacheMaxEntries = CacheMaxEntries c,
     be_SelfIP = SelfIP c,
     be_Hostmaster = Hostmaster c,
     be_CanonicalNameservers = canonicalNameservers (cfg s),
     be_VanityIPs = vanityIPs (cfg s)\<rparr>"

text \<open>The value line 72 assigns to the package-level variable \<^verbatim>\<open>ncdnsVersion\<close>.\<close>

definition versionSummary :: "env \<Rightarrow> string" where
  "versionSummary E = buildinfo_VersionSummary E ''github.com/namecoin/ncdns'' ''ncdns''"

text \<open>
  \<^verbatim>\<open>New\<close>, with the named results \<^verbatim>\<open>(s, err)\<close>: a bare \<^verbatim>\<open>return\<close> after an error gives
  back the server built so far, \<^verbatim>\<open>return nil, err\<close> gives back no server.
\<close>

definition New ::
  "env \<Rightarrow> Config \<Rightarrow> world \<Rightarrow> (Server option \<times> error option) result \<times> world" where
  "New E c w =
    (let w1 = w\<lparr>ncdnsVersion := versionSummary E\<rparr>
     in case New_config E c of
          Inl e \<Rightarrow> (Return (None, Some e), w1)
        | Inr s \<Rightarrow>
           (let w2 = w1\<lparr>calls := calls w1 @ [Call_backend_New (backendConfig c s)]\<rparr>
            in case backend_New E (backendConfig c s) of
                 Inl e \<Rightarrow> (Return (Some s, Some e), w2)
               | Inr b \<Rightarrow>
                  (let ecfg = \<lparr>Backend = b, VersionString = ncdnsVersion w2,
                               KSK = None, KSKPrivate = None, ZSK = None, ZSKPrivate = None\<rparr>
                   in case New_keys E c s ecfg w2 of
                        (Exit, w3) \<Rightarrow> (Exit, w3)
                      | (Return (Inl e), w3) \<Rightarrow> (Return (None, Some e), w3)
                      | (Return (Inr ecfg'), w3) \<Rightarrow>
                         (let w4 = w3\<lparr>calls := calls w3 @ [Call_NewEngine ecfg']\<rparr>
                          in case madns_NewEngine E ecfg' of
                               Inl e \<Rightarrow> (Return (Some s, Some e), w4)
                             | Inr eng \<Rightarrow>
                                New_listen E c
                                  (s\<lparr>engine := Some eng, mux := Some [(''.'', eng)]\<rparr>) w4))))"

section \<open>Start and the two serve loops\<close>

text \<open>
  \<^verbatim>\<open>runListener\<close> builds the \<^verbatim>\<open>dns.Server\<close> for one transport; \<open>None\<close> is
  \<^verbatim>\<open>panic("unreachable")\<close>. The goroutine it spawns is started by the step of \<^verbatim>\<open>Start\<close>
  that calls it.
\<close>

definition runListener :: "Server \<Rightarrow> string \<Rightarrow> dns_Server option" where
  "runListener s net =
    (let ds = \<lparr>Addr = Bind (cfg s), Net = net, Handler = mux s, Listener = None,
               PacketConn = None, NotifyStartedFunc = Some wgStart_Done\<rparr>
     in if net = ''tcp'' then Some (ds\<lparr>Listener := tcpListener s\<rparr>)
        else if net = ''udp'' then Some (ds\<lparr>PacketConn := udpConn s\<rparr>)
        else None)"

text \<open>
  \<^verbatim>\<open>sync.WaitGroup.Add(delta)\<close> on a counter: a counter that would become negative
  panics (\<open>None\<close>). \<^verbatim>\<open>Done()\<close> is \<^verbatim>\<open>Add(-1)\<close>; \<^verbatim>\<open>Wait()\<close> returns once the counter is zero.
\<close>

definition wgAdd :: "int \<Rightarrow> int \<Rightarrow> int option" where
  "wgAdd n delta = (if n + delta < 0 then None else Some (n + delta))"

datatype transport = UDP | TCP

text \<open>Where the thread that called \<^verbatim>\<open>Start\<close> stands; \<open>Returned r\<close> holds the value returned.\<close>

datatype pc = AtAdd | AtRunUDP | AtRunTCP | AtWait | AtLogInfo | Returned "error option"

datatype status = NotSpawned | Serving | Ended

text \<open>
  A goroutine running \<^verbatim>\<open>doRunListener\<close>: whether it is inside \<^verbatim>\<open>ActivateAndServe\<close>,
  and how many times its \<^verbatim>\<open>NotifyStartedFunc\<close> has run.
\<close>

record goroutine =
  status :: status
  notified :: nat

datatype crash = ProcessExit | Panic

record process =
  srv :: Server
  pc :: pc
  udpLoop :: goroutine
  tcpLoop :: goroutine
  crashed :: "crash option"

text \<open>
  One move of the scheduler: the thread in \<^verbatim>\<open>Start\<close> executes its next statement; the
  library, inside \<^verbatim>\<open>ActivateAndServe\<close> of one transport, calls \<^verbatim>\<open>NotifyStartedFunc\<close>;
  or \<^verbatim>\<open>ActivateAndServe\<close> of one transport returns, with an error or nil.
\<close>

datatype action = Main | Notify transport | ServeReturns transport "error option"

fun loopOf :: "transport \<Rightarrow> process \<Rightarrow> goroutine" where
  "loopOf UDP p = udpLoop p"
| "loopOf TCP p = tcpLoop p"

fun setLoop :: "transport \<Rightarrow> goroutine \<Rightarrow> process \<Rightarrow> process" where
  "setLoop UDP g p = p\<lparr>udpLoop := g\<rparr>"
| "setLoop TCP g p = p\<lparr>tcpLoop := g\<rparr>"

text \<open>
  The statements of \<^verbatim>\<open>Start\<close>, one per step. \<^verbatim>\<open>s.wgStart.Wait()\<close> can only be passed
  when the counter is zero; before that the thread has no step.
\<close>

definition mainStep :: "process \<Rightarrow> process option" where
  "mainStep p =
    (case pc p of
       AtAdd \<Rightarrow>
         (case wgAdd (wgStart (srv p)) 2 of
            None \<Rightarrow> Some (p\<lparr>crashed := Some Panic\<rparr>)
          | Some n \<Rightarrow> Some (p\<lparr>srv := (srv p)\<lparr>wgStart := n\<rparr>, pc := AtRunUDP\<rparr>))
     | AtRunUDP \<Rightarrow>
         (case runListener (srv p) ''udp'' of
            None \<Rightarrow> Some (p\<lparr>crashed := Some Panic\<rparr>)
          | Some ds \<Rightarrow>
              Some (p\<lparr>srv := (srv p)\<lparr>udpServer := Some ds\<rparr>,
                      udpLoop := (udpLoop p)\<lparr>status := Serving\<rparr>,
                      pc := AtRunTCP\<rparr>))
     | AtRunTCP \<Rightarrow>
         (case runListener (srv p) ''tcp'' of
            None \<Rightarrow> Some (p\<lparr>crashed := Some Panic\<rparr>)
          | Some ds \<Rightarrow>
              Some (p\<lparr>srv := (srv p)\<lparr>tcpServer := Some ds\<rparr>,
                      tcpLoop := (tcpLoop p)\<lparr>status := Serving\<rparr>,
                      pc := AtWait\<rparr>))
     | AtWait \<Rightarrow> (if wgStart (srv p) = 0 then Some (p\<lparr>pc := AtLogInfo\<rparr>) else None)
     | AtLogInfo \<Rightarrow> Some (p\<lparr>pc := Returned None\<rparr>)
     | Returned r \<Rightarrow> None)"

text \<open>
  One step of the process; \<open>None\<close> when the move is not possible. \<open>lib t\<close> is the number of
  times the library calls \<^verbatim>\<open>NotifyStartedFunc\<close> during one \<^verbatim>\<open>ActivateAndServe\<close> on
  transport \<open>t\<close> at most. In \<^verbatim>\<open>doRunListener\<close> an error returned by
  \<^verbatim>\<open>ActivateAndServe\<close> goes to \<^verbatim>\<open>log.Fatale\<close> and terminates the process; nil ends the
  goroutine. A terminated or panicked process makes no step.
\<close>

definition step :: "(transport \<Rightarrow> nat) \<Rightarrow> action \<Rightarrow> process \<Rightarrow> process option" where
  "step lib a p =
    (if crashed p \<noteq> None then None
     else case a of
       Main \<Rightarrow> mainStep p
     | Notify t \<Rightarrow>
         (if status (loopOf t p) = Serving \<and> notified (loopOf t p) < lib t
          then (case wgAdd (wgStart (srv p)) (- 1) of
                  None \<Rightarrow> Some (p\<lparr>crashed := Some Panic\<rparr>)
                | Some n \<Rightarrow>
                    Some (setLoop t ((loopOf t p)\<lparr>notified := Suc (notified (loopOf t p))\<rparr>)
                            (p\<lparr>srv := (srv p)\<lparr>wgStart := n\<rparr>\<rparr>)))
          else None)
     | ServeReturns t err \<Rightarrow>
         (if status (loopOf t p) = Serving
          then (if Fatale err then Some (p\<lparr>crashed := Some ProcessExit\<rparr>)
                else Some (setLoop t ((loopOf t p)\<lparr>status := Ended\<rparr>) p))
          else None))"

fun run :: "(transport \<Rightarrow> nat) \<Rightarrow> action list \<Rightarrow> process \<Rightarrow> process option" where
  "run lib [] p = Some p"
| "run lib (a # as) p = (case step lib a p of None \<Rightarrow> None | Some p' \<Rightarrow> run lib as p')"

text \<open>The process at the call of \<^verbatim>\<open>Start\<close> on server \<open>s\<close>: no serve loop spawned yet.\<close>

definition Start_init :: "Server \<Rightarrow> process" where
  "Start_init s =
    \<lparr>srv = s, pc = AtAdd,
     udpLoop = \<lparr>status = NotSpawned, notified = 0\<rparr>,
     tcpLoop = \<lparr>status = NotSpawned, notified = 0\<rparr>,
     crashed = None\<rparr>"

section \<open>A concrete environment\<close>

text \<open>
  A small outside world on which the definitions above can be run: a directory
  \<^verbatim>\<open>/etc/ncdns\<close> with two key pairs, a file holding an A record, a file that is not a
  record, and a private-key file that does not parse; port 53 free on both transports.
\<close>

definition exampleParseIP :: "string \<Rightarrow> IP option" where
  "exampleParseIP s =
    (if s = ''1.2.3.4'' then Some [0, 0, 0, 0, 0, 0, 0, 0, 0, 0, 255, 255, 1, 2, 3, 4]
     else if s = ''::1'' then Some [0, 0, 0, 0, 0, 0, 0, 0, 0, 0, 0, 0, 0, 0, 0, 1]
     else None)"

definition exampleJoin :: "string \<Rightarrow> string \<Rightarrow> string" where
  "exampleJoin dir s = (if dir = [] then s else if s = [] then dir else dir @ ''/'' @ s)"

definition exampleOpen :: "string \<Rightarrow> error + os_File" where
  "exampleOpen p =
    (if p \<in> set [''/etc/ncdns/ksk.key'', ''/etc/ncdns/ksk.private'', ''/etc/ncdns/zsk.key'',
                  ''/etc/ncdns/zsk.private'', ''/etc/ncdns/a.rr'', ''/etc/ncdns/garbage'',
                  ''/etc/ncdns/bad.private'']
     then Inr (File p) else Inl (LibError ''open: no such file or directory''))"

definition exampleReadRR :: "os_File \<Rightarrow> string \<Rightarrow> error + RR option" where
  "exampleReadRR f fn =
    (case f of File p \<Rightarrow>
       if p = ''/etc/ncdns/ksk.key''
       then Inr (Some (RR_DNSKEY \<lparr>Algorithm = 8, KeyTag = 257, PublicKeyMaterial = ''AwEAAc''\<rparr>))
       else if p = ''/etc/ncdns/zsk.key''
       then Inr (Some (RR_DNSKEY \<lparr>Algorithm = 8, KeyTag = 256, PublicKeyMaterial = ''AwEAAd''\<rparr>))
       else if p = ''/etc/ncdns/a.rr'' then Inr (Some (RR_Other ''A''))
       else Inl (LibError ''dns: not a record''))"

definition exampleReadPrivateKey ::
  "DNSKEY \<Rightarrow> os_File \<Rightarrow> string \<Rightarrow> error + crypto_PrivateKey option" where
  "exampleReadPrivateKey k f fn =
    (case f of File p \<Rightarrow>
       if p = ''/etc/ncdns/ksk.private'' \<or> p = ''/etc/ncdns/zsk.private''
       then Inr (Some (PrivKey p)) else Inl (LibError ''dns: bad private key''))"

definition exampleEnv :: env where
  "exampleEnv =
    \<lparr>buildinfo_VersionSummary = (\<lambda>path name. name @ '' v0.0.2''),
     net_ParseIP = exampleParseIP,
     filepath_Join = exampleJoin,
     backend_New = (\<lambda>bcfg. Inr (BackendHandle 1)),
     os_Open = exampleOpen,
     dns_ReadRR = exampleReadRR,
     ReadPrivateKey = exampleReadPrivateKey,
     madns_NewEngine = (\<lambda>ecfg. Inr (EngineHandle 1)),
     net_ResolveTCPAddr = (\<lambda>net a. Inr (TCPAddr a)),
     net_ListenTCP = (\<lambda>net a. Inr (TCPListener a)),
     net_ResolveUDPAddr = (\<lambda>net a. Inr (UDPAddr a)),
     net_ListenUDP = (\<lambda>net a. Inr (UDPConn a)),
     webStart = (\<lambda>a s. None)\<rparr>"

text \<open>The same world with the UDP port already taken by another process.\<close>

definition udpBusyEnv :: env where
  "udpBusyEnv =
    exampleEnv\<lparr>net_ListenUDP := (\<lambda>net a. Inl (LibError ''bind: address already in use''))\<rparr>"

text \<open>The configuration of the struct tags' defaults, with \<^verbatim>\<open>/etc/ncdns\<close> as base directory.\<close>

definition defaultConfig :: Config where
  "defaultConfig =
    \<lparr>Bind = '':53'', PublicKey = [], PrivateKey = [], ZonePublicKey = [], ZonePrivateKey = [],
     NamecoinRPCUsername = [], NamecoinRPCPassword = [],
     NamecoinRPCAddress = ''127.0.0.1:8336'', NamecoinRPCCookiePath = [],
     CacheMaxEntries = 100, SelfName = [], SelfIP = ''127.127.127.127'',
     HTTPListenAddr = [], CanonicalSuffix = ''bit'', CanonicalNameservers = [],
     canonicalNameservers = [], Hostmaster = [], VanityIPs = [], vanityIPs = [],
     TplSet = ''std'', TplPath = [], ConfigDir = ''/etc/ncdns''\<rparr>"

text \<open>The server value with which \<^verbatim>\<open>New\<close> starts on that configuration.\<close>

definition exampleServer :: Server where
  "exampleServer =
    \<lparr>cfg = defaultConfig, engine = None,
     namecoinConn = \<lparr>Username = [], Password = [], Server = ''127.0.0.1:8336'',
                     GetAuth = None\<rparr>,
     mux = None, udpServer = None, udpConn = None, tcpServer = None, tcpListener = None,
     wgStart = 0\<rparr>"

definition world0 :: world where
  "world0 = \<lparr>ncdnsVersion = [], calls = [], sockets = []\<rparr>"

text \<open>Observations on what \<^verbatim>\<open>New\<close> returned.\<close>

fun returnedServer :: "(Server option \<times> error option) result \<Rightarrow> Server option" where
  "returnedServer Exit = None"
| "returnedServer (Return (s, err)) = s"

fun returnedError :: "(Server option \<times> error option) result \<Rightarrow> error option" where
  "returnedError Exit = None"
| "returnedError (Return (s, err)) = err"

text \<open>
  The calls a run added to the log; among them the paths handed to \<^verbatim>\<open>os.Open\<close>, the
  configurations handed to \<^verbatim>\<open>backend.New\<close> and to \<^verbatim>\<open>madns.NewEngine\<close>, and the calls that
  resolve an address or bind a socket.
\<close>

definition newCalls :: "world \<Rightarrow> world \<Rightarrow> call list" where
  "newCalls w w' = drop (length (calls w)) (calls w')"

fun opened :: "call list \<Rightarrow> string list" where
  "opened [] = []"
| "opened (Call_os_Open p # cs) = p # opened cs"
| "opened (c # cs) = opened cs"

fun backendCalls :: "call list \<Rightarrow> backend_Config list" where
  "backendCalls [] = []"
| "backendCalls (Call_backend_New b # cs) = b # backendCalls cs"
| "backendCalls (c # cs) = backendCalls cs"

fun engineCalls :: "call list \<Rightarrow> EngineConfig list" where
  "engineCalls [] = []"
| "engineCalls (Call_NewEngine e # cs) = e # engineCalls cs"
| "engineCalls (c # cs) = engineCalls cs"

fun isNetworkCall :: "call \<Rightarrow> bool" where
  "isNetworkCall (Call_ResolveTCPAddr a) = True"
| "isNetworkCall (Call_ListenTCP a) = True"
| "isNetworkCall (Call_ResolveUDPAddr a) = True"
| "isNetworkCall (Call_ListenUDP a) = True"
| "isNetworkCall c = False"

text \<open>The sockets a server value holds in its fields.\<close>

definition heldSockets :: "Server \<Rightarrow> socket list" where
  "heldSockets s =
    (case tcpListener s of None \<Rightarrow> [] | Some l \<Rightarrow> [TCPSocket l]) @
    (case udpConn s of None \<Rightarrow> [] | Some u \<Rightarrow> [UDPSocket u])"

section \<open>Auxiliary notions for the proofs\<close>

text \<open>
  The facts about the readiness barrier that hold in every state of a run of \<^verbatim>\<open>Start\<close>, as
  a predicate on the counter, the position of the caller, and the status and the number of
  notifications of the two serve loops.
\<close>

fun isReturned :: "pc \<Rightarrow> bool" where
  "isReturned (Returned r) = True"
| "isReturned x = False"

definition barrierInv ::
  "(transport \<Rightarrow> nat) \<Rightarrow> int \<Rightarrow> pc \<Rightarrow> status \<Rightarrow> nat \<Rightarrow> status \<Rightarrow> nat \<Rightarrow> bool" where
  "barrierInv lib wg l su nu st nt \<longleftrightarrow>
     wg = (if l = AtAdd then 0 else 2) - int nu - int nt
   \<and> nu \<le> lib UDP \<and> nt \<le> lib TCP
   \<and> (su = NotSpawned \<longrightarrow> nu = 0)
   \<and> (st = NotSpawned \<longrightarrow> nt = 0)
   \<and> (l = AtAdd \<or> l = AtRunUDP \<longrightarrow> su = NotSpawned)
   \<and> (l = AtAdd \<or> l = AtRunUDP \<or> l = AtRunTCP \<longrightarrow> st = NotSpawned)
   \<and> (l = AtLogInfo \<or> isReturned l \<longrightarrow> 2 \<le> nu + nt)"

definition startInv :: "(transport \<Rightarrow> nat) \<Rightarrow> process \<Rightarrow> bool" where
  "startInv lib p =
     barrierInv lib (wgStart (srv p)) (pc p) (status (udpLoop p)) (notified (udpLoop p))
       (status (tcpLoop p)) (notified (tcpLoop p))"

text \<open>The files one call of \<^verbatim>\<open>loadKey\<close> may open: none, the public key, or both.\<close>

definition keyFiles :: "env \<Rightarrow> Server \<Rightarrow> string \<Rightarrow> string \<Rightarrow> string list \<Rightarrow> bool" where
  "keyFiles E s pub priv ks \<longleftrightarrow>
     ks = [] \<or> pub \<noteq> [] \<and> (ks = [cpath E (cfg s) pub] \<or>
                             ks = [cpath E (cfg s) pub, cpath E (cfg s) priv])"

text \<open>The world and the engine configuration with which \<^verbatim>\<open>New\<close> enters the key setup.\<close>

abbreviation worldAtKeys :: "env \<Rightarrow> Config \<Rightarrow> Server \<Rightarrow> world \<Rightarrow> world" where
  "worldAtKeys E c s w \<equiv>
     w\<lparr>ncdnsVersion := versionSummary E,
       calls := calls w @ [Call_backend_New (backendConfig c s)]\<rparr>"

abbreviation ecfgAtKeys :: "env \<Rightarrow> backend \<Rightarrow> EngineConfig" where
  "ecfgAtKeys E b \<equiv>
     \<lparr>Backend = b, VersionString = versionSummary E,
      KSK = None, KSKPrivate = None, ZSK = None, ZSKPrivate = None\<rparr>"

text \<open>
  The shape of the calls one run of \<^verbatim>\<open>New\<close> makes: the backend, the key files of the KSK
  and then of the ZSK, the engine, and then the network and the web frontend.
\<close>

definition NewLog :: "env \<Rightarrow> Config \<Rightarrow> call list \<Rightarrow> bool" where
  "NewLog E c cs \<longleftrightarrow>
    (\<exists>bs ks zs es ns.
       cs = map Call_backend_New bs @ map Call_os_Open (ks @ zs) @ map Call_NewEngine es @ ns
     \<and> bs = (case New_config E c of Inl e \<Rightarrow> [] | Inr s \<Rightarrow> [backendConfig c s])
     \<and> (ks = [] \<or> PublicKey c \<noteq> [] \<and>
          (ks = [cpath E c (PublicKey c)] \<or>
           ks = [cpath E c (PublicKey c), cpath E c (PrivateKey c)]))
     \<and> (zs = [] \<or> ZonePublicKey c \<noteq> [] \<and>
          (zs = [cpath E c (ZonePublicKey c)] \<or>
           zs = [cpath E c (ZonePublicKey c), cpath E c (ZonePrivateKey c)]))
     \<and> (\<forall>e\<in>set es.
          (PublicKey c = [] \<longrightarrow> KSK e = None \<and> KSKPrivate e = None) \<and>
          (ZonePublicKey c = [] \<longrightarrow> ZSK e = None \<and> ZSKPrivate e = None))
     \<and> opened ns = [] \<and> (\<forall>x. Call_NewEngine x \<notin> set ns) \<and> (\<forall>x. Call_backend_New x \<notin> set ns))"

section \<open>The normalization of the two lists\<close>

declare fqdnLoop.simps [simp del]

lemma Split_nonempty: "Split s sep \<noteq> []"
  by (induction s) (auto split: list.splits)

text \<open>The loop over the indices is a map: it has rewritten the entries below \<open>i\<close>.\<close>

lemma fqdnLoop_take_drop:
  "i \<le> length xs \<Longrightarrow> fqdnLoop i xs = take i xs @ map Fqdn (drop i xs)"
proof (induction i xs rule: fqdnLoop.induct)
  case (1 i xs)
  show ?case
  proof (cases "i < length xs")
    case True
    let ?ys = "xs[i := Fqdn (xs ! i)]"
    from True have "fqdnLoop i xs = fqdnLoop (Suc i) ?ys"
      by (subst fqdnLoop.simps) simp
    also from True have "\<dots> = take (Suc i) ?ys @ map Fqdn (drop (Suc i) ?ys)"
      by (intro "1.IH") simp_all
    also from True have "take (Suc i) ?ys = take i xs @ [Fqdn (xs ! i)]"
      by (simp add: take_Suc_conv_app_nth)
    also have "drop (Suc i) ?ys = drop (Suc i) xs"
      by simp
    finally show ?thesis
      using True by (simp add: Cons_nth_drop_Suc[symmetric])
  next
    case False
    with "1.prems" have "i = length xs" by simp
    then show ?thesis by (subst fqdnLoop.simps) simp
  qed
qed

lemma fqdnLoop_map: "fqdnLoop 0 xs = map Fqdn xs"
  using fqdnLoop_take_drop[of 0 xs] by simp

lemma vanityLoop_all:
  "\<forall>t\<in>set ts. net_ParseIP E t \<noteq> None \<Longrightarrow>
   vanityLoop E ts acc = Inr (acc @ map (\<lambda>t. the (net_ParseIP E t)) ts)"
  by (induction ts arbitrary: acc) auto

lemma vanityLoop_first:
  "find (\<lambda>t. net_ParseIP E t = None) ts = Some tok \<Longrightarrow>
   vanityLoop E ts acc = Inl (Errorf (''Couldn't parse IP: '' @ tok))"
  by (induction ts arbitrary: acc) (auto split: if_splits)

lemma New_config_Inl:
  "New_config E c = Inl e \<longleftrightarrow>
   VanityIPs c \<noteq> [] \<and> vanityLoop E (Split (VanityIPs c) CHR '','') (vanityIPs c) = Inl e"
  by (auto simp: New_config_def Let_def split: sum.splits)

lemma New_config_Inr:
  assumes "New_config E c = Inr s"
  shows "wgStart s = 0" "udpServer s = None" "tcpServer s = None"
    "tcpListener s = None" "udpConn s = None"
    "canonicalNameservers (cfg s) =
       (if CanonicalNameservers c = [] then canonicalNameservers c
        else map Fqdn (Split (CanonicalNameservers c) CHR '',''))"
    "VanityIPs c = [] \<longrightarrow> vanityIPs (cfg s) = vanityIPs c"
    "VanityIPs c \<noteq> [] \<longrightarrow>
       vanityLoop E (Split (VanityIPs c) CHR '','') (vanityIPs c) = Inr (vanityIPs (cfg s))"
    "GetAuth (namecoinConn s) =
       (if NamecoinRPCCookiePath c = [] then None
        else Some (cookieRetriever (NamecoinRPCCookiePath c)))"
    "ConfigDir (cfg s) = ConfigDir c" "Bind (cfg s) = Bind c"
  using assms
  by (auto simp: New_config_def Let_def fqdnLoop_map split: sum.splits if_splits)

section \<open>Key loading\<close>

text \<open>\<^verbatim>\<open>loadKey\<close> touches the log of calls only, and only with the files it opens.\<close>

lemma loadKey_world:
  "sockets (snd (loadKey E s fn pfn w)) = sockets w \<and>
   ncdnsVersion (snd (loadKey E s fn pfn w)) = ncdnsVersion w"
  by (simp add: loadKey_def Let_def Fatale_def split: sum.splits option.splits RR.splits)

lemma loadKey_calls:
  "calls (snd (loadKey E s fn pfn w)) = calls w @ [Call_os_Open (cpath E (cfg s) fn)] \<or>
   calls (snd (loadKey E s fn pfn w)) =
     calls w @ [Call_os_Open (cpath E (cfg s) fn), Call_os_Open (cpath E (cfg s) pfn)]"
  by (simp add: loadKey_def Let_def Fatale_def split: sum.splits option.splits RR.splits)

lemma loadKey_fst: "fst (loadKey E s fn pfn w) = fst (loadKey E s fn pfn w')"
  by (simp add: loadKey_def Let_def Fatale_def split: sum.splits option.splits RR.splits)

lemma loadKey_key:
  "fst (loadKey E s fn pfn w) = Return (k, pk, None) \<Longrightarrow> k \<noteq> None"
  by (auto simp: loadKey_def Let_def Fatale_def split: sum.splits option.splits RR.splits)

text \<open>The outcomes of loading one key pair.\<close>

lemma New_KSK_cases:
  obtains (Skip) "PublicKey c = []" "New_KSK E c s ecfg w = (Return (Inr ecfg), w)"
  | (LoadExit) w1 where "PublicKey c \<noteq> []"
      "loadKey E s (PublicKey c) (PrivateKey c) w = (Exit, w1)"
      "New_KSK E c s ecfg w = (Exit, w1)"
  | (LoadError) w1 k pk e where "PublicKey c \<noteq> []"
      "loadKey E s (PublicKey c) (PrivateKey c) w = (Return (k, pk, Some e), w1)"
      "New_KSK E c s ecfg w = (Return (Inl e), w1)"
  | (Loaded) w1 k pk where "PublicKey c \<noteq> []"
      "loadKey E s (PublicKey c) (PrivateKey c) w = (Return (Some k, pk, None), w1)"
      "New_KSK E c s ecfg w = (Return (Inr (ecfg\<lparr>KSK := Some k, KSKPrivate := pk\<rparr>)), w1)"
proof (cases "PublicKey c = []")
  case True
  then show ?thesis using Skip by (simp add: New_KSK_def)
next
  case False
  obtain r w1 where l: "loadKey E s (PublicKey c) (PrivateKey c) w = (r, w1)"
    by (cases "loadKey E s (PublicKey c) (PrivateKey c) w")
  show ?thesis
  proof (cases r)
    case Exit
    with False l show ?thesis using LoadExit by (simp add: New_KSK_def)
  next
    case (Return x)
    obtain k pk err where x: "x = (k, pk, err)" by (cases x)
    show ?thesis
    proof (cases err)
      case (Some e)
      with False l Return x show ?thesis using LoadError by (simp add: New_KSK_def)
    next
      case None
      with l Return x have "fst (loadKey E s (PublicKey c) (PrivateKey c) w) = Return (k, pk, None)"
        by simp
      from loadKey_key[OF this] obtain k' where "k = Some k'" by blast
      with None False l Return x show ?thesis using Loaded by (simp add: New_KSK_def)
    qed
  qed
qed

lemma New_ZSK_cases:
  obtains (Skip) "ZonePublicKey c = []" "New_ZSK E c s ecfg w = (Return (Inr ecfg), w)"
  | (LoadExit) w1 where "ZonePublicKey c \<noteq> []"
      "loadKey E s (ZonePublicKey c) (ZonePrivateKey c) w = (Exit, w1)"
      "New_ZSK E c s ecfg w = (Exit, w1)"
  | (LoadError) w1 k pk e where "ZonePublicKey c \<noteq> []"
      "loadKey E s (ZonePublicKey c) (ZonePrivateKey c) w = (Return (k, pk, Some e), w1)"
      "New_ZSK E c s ecfg w = (Return (Inl e), w1)"
  | (Loaded) w1 k pk where "ZonePublicKey c \<noteq> []"
      "loadKey E s (ZonePublicKey c) (ZonePrivateKey c) w = (Return (Some k, pk, None), w1)"
      "New_ZSK E c s ecfg w = (Return (Inr (ecfg\<lparr>ZSK := Some k, ZSKPrivate := pk\<rparr>)), w1)"
proof (cases "ZonePublicKey c = []")
  case True
  then show ?thesis using Skip by (simp add: New_ZSK_def)
next
  case False
  obtain r w1 where l: "loadKey E s (ZonePublicKey c) (ZonePrivateKey c) w = (r, w1)"
    by (cases "loadKey E s (ZonePublicKey c) (ZonePrivateKey c) w")
  show ?thesis
  proof (cases r)
    case Exit
    with False l show ?thesis using LoadExit by (simp add: New_ZSK_def)
  next
    case (Return x)
    obtain k pk err where x: "x = (k, pk, err)" by (cases x)
    show ?thesis
    proof (cases err)
      case (Some e)
      with False l Return x show ?thesis using LoadError by (simp add: New_ZSK_def)
    next
      case None
      with l Return x
      have "fst (loadKey E s (ZonePublicKey c) (ZonePrivateKey c) w) = Return (k, pk, None)"
        by simp
      from loadKey_key[OF this] obtain k' where "k = Some k'" by blast
      with None False l Return x show ?thesis using Loaded by (simp add: New_ZSK_def)
    qed
  qed
qed


lemma loadKey_opens:
  assumes "loadKey E s fn pfn w = (r, w1)"
  shows "sockets w1 = sockets w \<and> ncdnsVersion w1 = ncdnsVersion w \<and>
    (\<exists>ks. calls w1 = calls w @ map Call_os_Open ks \<and>
       (ks = [cpath E (cfg s) fn] \<or> ks = [cpath E (cfg s) fn, cpath E (cfg s) pfn]))"
proof -
  from assms have w1: "w1 = snd (loadKey E s fn pfn w)" by simp
  from loadKey_calls[of E s fn pfn w] w1
  have "calls w1 = calls w @ map Call_os_Open [cpath E (cfg s) fn] \<or>
        calls w1 = calls w @ map Call_os_Open [cpath E (cfg s) fn, cpath E (cfg s) pfn]"
    by simp
  then have "\<exists>ks. calls w1 = calls w @ map Call_os_Open ks \<and>
       (ks = [cpath E (cfg s) fn] \<or> ks = [cpath E (cfg s) fn, cpath E (cfg s) pfn])"
    by blast
  with loadKey_world[of E s fn pfn w] w1 show ?thesis by simp
qed

lemma New_KSK_summary:
  assumes "New_KSK E c s ecfg w = (r, w1)"
  shows "sockets w1 = sockets w \<and> ncdnsVersion w1 = ncdnsVersion w \<and>
    (\<exists>ks. calls w1 = calls w @ map Call_os_Open ks \<and>
       (ks = [] \<or> PublicKey c \<noteq> [] \<and>
          (ks = [cpath E (cfg s) (PublicKey c)] \<or>
           ks = [cpath E (cfg s) (PublicKey c), cpath E (cfg s) (PrivateKey c)]))) \<and>
    (\<forall>e1. r = Return (Inr e1) \<longrightarrow>
       ZSK e1 = ZSK ecfg \<and> ZSKPrivate e1 = ZSKPrivate ecfg \<and>
       (PublicKey c = [] \<longrightarrow> e1 = ecfg) \<and> (PublicKey c \<noteq> [] \<longrightarrow> KSK e1 \<noteq> None))"
proof (cases rule: New_KSK_cases[of c E s ecfg w])
  case Skip
  with assms have "r = Return (Inr ecfg)" "w1 = w" by simp_all
  moreover have "calls w = calls w @ map Call_os_Open []" by simp
  ultimately show ?thesis using Skip(1) by blast
next
  case (LoadExit w2)
  with assms have "r = Exit" "w1 = w2" by simp_all
  with loadKey_opens[OF LoadExit(2)] LoadExit(1) show ?thesis by auto
next
  case (LoadError w2 k pk e)
  with assms have "r = Return (Inl e)" "w1 = w2" by simp_all
  with loadKey_opens[OF LoadError(2)] LoadError(1) show ?thesis by auto
next
  case (Loaded w2 k pk)
  with assms have "r = Return (Inr (ecfg\<lparr>KSK := Some k, KSKPrivate := pk\<rparr>))" "w1 = w2"
    by simp_all
  with loadKey_opens[OF Loaded(2)] Loaded(1) show ?thesis by auto
qed

lemma New_ZSK_summary:
  assumes "New_ZSK E c s ecfg w = (r, w1)"
  shows "sockets w1 = sockets w \<and> ncdnsVersion w1 = ncdnsVersion w \<and>
    (\<exists>zs. calls w1 = calls w @ map Call_os_Open zs \<and>
       (zs = [] \<or> ZonePublicKey c \<noteq> [] \<and>
          (zs = [cpath E (cfg s) (ZonePublicKey c)] \<or>
           zs = [cpath E (cfg s) (ZonePublicKey c), cpath E (cfg s) (ZonePrivateKey c)]))) \<and>
    (\<forall>e1. r = Return (Inr e1) \<longrightarrow>
       KSK e1 = KSK ecfg \<and> KSKPrivate e1 = KSKPrivate ecfg \<and>
       (ZonePublicKey c = [] \<longrightarrow> e1 = ecfg) \<and> (ZonePublicKey c \<noteq> [] \<longrightarrow> ZSK e1 \<noteq> None))"
proof (cases rule: New_ZSK_cases[of c E s ecfg w])
  case Skip
  with assms have "r = Return (Inr ecfg)" "w1 = w" by simp_all
  moreover have "calls w = calls w @ map Call_os_Open []" by simp
  ultimately show ?thesis using Skip(1) by blast
next
  case (LoadExit w2)
  with assms have "r = Exit" "w1 = w2" by simp_all
  with loadKey_opens[OF LoadExit(2)] LoadExit(1) show ?thesis by auto
next
  case (LoadError w2 k pk e)
  with assms have "r = Return (Inl e)" "w1 = w2" by simp_all
  with loadKey_opens[OF LoadError(2)] LoadError(1) show ?thesis by auto
next
  case (Loaded w2 k pk)
  with assms have "r = Return (Inr (ecfg\<lparr>ZSK := Some k, ZSKPrivate := pk\<rparr>))" "w1 = w2"
    by simp_all
  with loadKey_opens[OF Loaded(2)] Loaded(1) show ?thesis by auto
qed

lemma New_keys_summary:
  assumes "New_keys E c s ecfg w = (r, w')"
  shows "sockets w' = sockets w \<and> ncdnsVersion w' = ncdnsVersion w \<and>
    (\<exists>ks zs. calls w' = calls w @ map Call_os_Open (ks @ zs) \<and>
       keyFiles E s (PublicKey c) (PrivateKey c) ks \<and>
       keyFiles E s (ZonePublicKey c) (ZonePrivateKey c) zs) \<and>
    (\<forall>e2. r = Return (Inr e2) \<longrightarrow>
       (PublicKey c = [] \<longrightarrow> KSK e2 = KSK ecfg \<and> KSKPrivate e2 = KSKPrivate ecfg) \<and>
       (ZonePublicKey c = [] \<longrightarrow> ZSK e2 = ZSK ecfg \<and> ZSKPrivate e2 = ZSKPrivate ecfg) \<and>
       (PublicKey c \<noteq> [] \<longrightarrow> KSK e2 \<noteq> None) \<and>
       (KSK e2 \<noteq> None \<longrightarrow> ZSK e2 \<noteq> None))"
proof -
  obtain r1 w1 where k: "New_KSK E c s ecfg w = (r1, w1)"
    by (cases "New_KSK E c s ecfg w")
  from New_KSK_summary[OF k] obtain ks where
    k1: "sockets w1 = sockets w" "ncdnsVersion w1 = ncdnsVersion w"
    and k2: "calls w1 = calls w @ map Call_os_Open ks"
      "keyFiles E s (PublicKey c) (PrivateKey c) ks"
    and k3: "\<forall>e1. r1 = Return (Inr e1) \<longrightarrow>
       ZSK e1 = ZSK ecfg \<and> ZSKPrivate e1 = ZSKPrivate ecfg \<and>
       (PublicKey c = [] \<longrightarrow> e1 = ecfg) \<and> (PublicKey c \<noteq> [] \<longrightarrow> KSK e1 \<noteq> None)"
    unfolding keyFiles_def by blast
  have z0: "keyFiles E s (ZonePublicKey c) (ZonePrivateKey c) []"
    by (simp add: keyFiles_def)
  have stop: ?thesis if "r = r1" "w' = w1" "\<forall>e1. r1 \<noteq> Return (Inr e1)"
  proof -
    from k2 have "calls w1 = calls w @ map Call_os_Open (ks @ [])" by simp
    with k2(2) z0 have "\<exists>ks zs. calls w1 = calls w @ map Call_os_Open (ks @ zs) \<and>
       keyFiles E s (PublicKey c) (PrivateKey c) ks \<and>
       keyFiles E s (ZonePublicKey c) (ZonePrivateKey c) zs"
      by blast
    with that k1 show ?thesis by simp
  qed
  show ?thesis
  proof (cases r1)
    case Exit
    with k assms have "r = r1" "w' = w1" by (simp_all add: New_keys_def)
    with Exit stop show ?thesis by simp
  next
    case (Return x)
    show ?thesis
    proof (cases x)
      case (Inl e)
      with Return k assms have "r = r1" "w' = w1" by (simp_all add: New_keys_def)
      with Return Inl stop show ?thesis by simp
    next
      case (Inr e1)
      obtain r2 w2 where z: "New_ZSK E c s e1 w1 = (r2, w2)"
        by (cases "New_ZSK E c s e1 w1")
      from New_ZSK_summary[OF z] obtain zs where
        z1: "sockets w2 = sockets w1" "ncdnsVersion w2 = ncdnsVersion w1"
        and z2: "calls w2 = calls w1 @ map Call_os_Open zs"
          "keyFiles E s (ZonePublicKey c) (ZonePrivateKey c) zs"
        and z3: "\<forall>e2. r2 = Return (Inr e2) \<longrightarrow>
           KSK e2 = KSK e1 \<and> KSKPrivate e2 = KSKPrivate e1 \<and>
           (ZonePublicKey c = [] \<longrightarrow> e2 = e1) \<and> (ZonePublicKey c \<noteq> [] \<longrightarrow> ZSK e2 \<noteq> None)"
        unfolding keyFiles_def by blast
      from k2 z2 have cs: "calls w2 = calls w @ map Call_os_Open (ks @ zs)" by simp
      with k2(2) z2(2) have ex: "\<exists>ks zs. calls w2 = calls w @ map Call_os_Open (ks @ zs) \<and>
         keyFiles E s (PublicKey c) (PrivateKey c) ks \<and>
         keyFiles E s (ZonePublicKey c) (ZonePrivateKey c) zs"
        by blast
      from k3 Return Inr have e1: "ZSK e1 = ZSK ecfg" "ZSKPrivate e1 = ZSKPrivate ecfg"
        "PublicKey c = [] \<longrightarrow> e1 = ecfg"
        by simp_all
      from k3 Return Inr have e1k: "PublicKey c \<noteq> [] \<longrightarrow> KSK e1 \<noteq> None"
        by simp
      from assms k Return Inr z have w': "w' = w2"
        by (simp add: New_keys_def split: result.splits sum.splits if_splits)
      have res: "\<forall>e2. r = Return (Inr e2) \<longrightarrow> r2 = Return (Inr e2) \<and> (KSK e2 \<noteq> None \<longrightarrow> ZSK e2 \<noteq> None)"
        using assms k Return Inr z
        by (auto simp: New_keys_def split: result.splits sum.splits if_splits)
      have "\<forall>e2. r = Return (Inr e2) \<longrightarrow>
         (PublicKey c = [] \<longrightarrow> KSK e2 = KSK ecfg \<and> KSKPrivate e2 = KSKPrivate ecfg) \<and>
         (ZonePublicKey c = [] \<longrightarrow> ZSK e2 = ZSK ecfg \<and> ZSKPrivate e2 = ZSKPrivate ecfg) \<and>
         (PublicKey c \<noteq> [] \<longrightarrow> KSK e2 \<noteq> None) \<and>
         (KSK e2 \<noteq> None \<longrightarrow> ZSK e2 \<noteq> None)"
        using res z3 e1 e1k by metis
      with ex z1 k1 w' show ?thesis by simp
    qed
  qed
qed

lemma New_keys_KSK_only:
  assumes "PublicKey c \<noteq> []" "ZonePublicKey c = []" "ZSK ecfg = None"
    and "fst (loadKey E s (PublicKey c) (PrivateKey c) w) = Return (k, pk, None)"
  shows "fst (New_keys E c s ecfg w) =
           Return (Inl (Errorf ''Must specify ZSK if KSK is specified''))"
proof (cases rule: New_KSK_cases[of c E s ecfg w])
  case Skip
  with assms(1) show ?thesis by simp
next
  case (LoadExit w1)
  with assms(4) show ?thesis by simp
next
  case (LoadError w1 k' pk' e)
  with assms(4) show ?thesis by simp
next
  case (Loaded w1 k' pk')
  let ?e1 = "ecfg\<lparr>KSK := Some k', KSKPrivate := pk'\<rparr>"
  from assms(2) have "New_ZSK E c s ?e1 w1 = (Return (Inr ?e1), w1)"
    by (simp add: New_ZSK_def)
  with Loaded(3) assms(3) show ?thesis
    by (simp add: New_keys_def)
qed

section \<open>Binding the sockets\<close>

text \<open>The outcomes of the network part of New, on a server that holds no socket yet.\<close>

lemma New_listen_summary:
  assumes "tcpListener s = None" "udpConn s = None"
  shows "\<exists>s' err cs.
     New_listen E c s w = (Return (Some s', err),
        w\<lparr>calls := calls w @ cs, sockets := sockets w @ heldSockets s'\<rparr>) \<and>
     cfg s' = cfg s \<and> namecoinConn s' = namecoinConn s \<and> wgStart s' = wgStart s \<and>
     udpServer s' = udpServer s \<and> tcpServer s' = tcpServer s \<and>
     opened cs = [] \<and> (\<forall>x. Call_NewEngine x \<notin> set cs) \<and> (\<forall>x. Call_backend_New x \<notin> set cs)"
proof -
  from assms have s: "s = s\<lparr>tcpListener := None, udpConn := None\<rparr>" by simp
  let ?P = "\<lambda>s' err cs. New_listen E c s w = (Return (Some s', err),
        w\<lparr>calls := calls w @ cs, sockets := sockets w @ heldSockets s'\<rparr>) \<and>
     cfg s' = cfg s \<and> namecoinConn s' = namecoinConn s \<and> wgStart s' = wgStart s \<and>
     udpServer s' = udpServer s \<and> tcpServer s' = tcpServer s \<and>
     opened cs = [] \<and> (\<forall>x. Call_NewEngine x \<notin> set cs) \<and> (\<forall>x. Call_backend_New x \<notin> set cs)"
  show ?thesis
  proof (cases "net_ResolveTCPAddr E ''tcp'' (Bind (cfg s))")
    case (Inl e)
    have "heldSockets s = []" using assms by (simp add: heldSockets_def)
    with Inl have "?P s (Some e) [Call_ResolveTCPAddr (Bind (cfg s))]"
      by (simp add: New_listen_def Let_def)
    then show ?thesis by blast
  next
    case ta: (Inr tcpAddr)
    show ?thesis
    proof (cases "net_ListenTCP E ''tcp'' tcpAddr")
      case (Inl e)
      have "heldSockets (s\<lparr>tcpListener := None\<rparr>) = []" using assms by (simp add: heldSockets_def)
      with ta Inl have "?P (s\<lparr>tcpListener := None\<rparr>) (Some e)
          [Call_ResolveTCPAddr (Bind (cfg s)), Call_ListenTCP tcpAddr]"
        by (simp add: New_listen_def Let_def)
      then show ?thesis by blast
    next
      case tl: (Inr l)
      have h1: "heldSockets (s\<lparr>tcpListener := Some l\<rparr>) = [TCPSocket l]"
        using assms by (simp add: heldSockets_def)
      show ?thesis
      proof (cases "net_ResolveUDPAddr E ''udp'' (Bind (cfg s))")
        case (Inl e)
        with ta tl h1 have "?P (s\<lparr>tcpListener := Some l\<rparr>) (Some e)
            [Call_ResolveTCPAddr (Bind (cfg s)), Call_ListenTCP tcpAddr,
             Call_ResolveUDPAddr (Bind (cfg s))]"
          by (simp add: New_listen_def Let_def)
        then show ?thesis by blast
      next
        case ua: (Inr udpAddr)
        show ?thesis
        proof (cases "net_ListenUDP E ''udp'' udpAddr")
          case (Inl e)
          have "heldSockets (s\<lparr>tcpListener := Some l, udpConn := None\<rparr>) = [TCPSocket l]"
            by (simp add: heldSockets_def)
          with ta tl ua Inl have "?P (s\<lparr>tcpListener := Some l, udpConn := None\<rparr>) (Some e)
              [Call_ResolveTCPAddr (Bind (cfg s)), Call_ListenTCP tcpAddr,
               Call_ResolveUDPAddr (Bind (cfg s)), Call_ListenUDP udpAddr]"
            by (simp add: New_listen_def Let_def)
          then show ?thesis by blast
        next
          case ul: (Inr u)
          have h2: "heldSockets (s\<lparr>tcpListener := Some l, udpConn := Some u\<rparr>) =
              [TCPSocket l, UDPSocket u]"
            by (simp add: heldSockets_def)
          show ?thesis
          proof (cases "HTTPListenAddr c = []")
            case True
            with ta tl ua ul h2 have "?P (s\<lparr>tcpListener := Some l, udpConn := Some u\<rparr>) None
                [Call_ResolveTCPAddr (Bind (cfg s)), Call_ListenTCP tcpAddr,
                 Call_ResolveUDPAddr (Bind (cfg s)), Call_ListenUDP udpAddr]"
              by (simp add: New_listen_def Let_def)
            then show ?thesis by blast
          next
            case False
            with ta tl ua ul h2 have "?P (s\<lparr>tcpListener := Some l, udpConn := Some u\<rparr>)
                (webStart E (HTTPListenAddr c) (s\<lparr>tcpListener := Some l, udpConn := Some u\<rparr>))
                [Call_ResolveTCPAddr (Bind (cfg s)), Call_ListenTCP tcpAddr,
                 Call_ResolveUDPAddr (Bind (cfg s)), Call_ListenUDP udpAddr,
                 Call_webStart (HTTPListenAddr c)]"
              by (simp add: New_listen_def Let_def)
            then show ?thesis by blast
          qed
        qed
      qed
    qed
  qed
qed

section \<open>The outcomes of New\<close>

text \<open>
  \<^verbatim>\<open>New\<close> ends in one of six ways: the configuration does not normalize, the backend
  fails, the key setup terminates the process or fails, the engine fails, or the network
  part is reached.
\<close>

lemma New_cases [case_names ConfigError BackendError KeyExit KeyError EngineError Listen]:
  obtains
    (ConfigError) e where "New_config E c = Inl e"
      "New E c w = (Return (None, Some e), w\<lparr>ncdnsVersion := versionSummary E\<rparr>)"
  | (BackendError) s e where "New_config E c = Inr s"
      "backend_New E (backendConfig c s) = Inl e"
      "New E c w = (Return (Some s, Some e), worldAtKeys E c s w)"
  | (KeyExit) s b w3 where "New_config E c = Inr s"
      "backend_New E (backendConfig c s) = Inr b"
      "New_keys E c s (ecfgAtKeys E b) (worldAtKeys E c s w) = (Exit, w3)"
      "New E c w = (Exit, w3)"
  | (KeyError) s b e w3 where "New_config E c = Inr s"
      "backend_New E (backendConfig c s) = Inr b"
      "New_keys E c s (ecfgAtKeys E b) (worldAtKeys E c s w) = (Return (Inl e), w3)"
      "New E c w = (Return (None, Some e), w3)"
  | (EngineError) s b ecfg' w3 e where "New_config E c = Inr s"
      "backend_New E (backendConfig c s) = Inr b"
      "New_keys E c s (ecfgAtKeys E b) (worldAtKeys E c s w) = (Return (Inr ecfg'), w3)"
      "madns_NewEngine E ecfg' = Inl e"
      "New E c w = (Return (Some s, Some e), w3\<lparr>calls := calls w3 @ [Call_NewEngine ecfg']\<rparr>)"
  | (Listen) s b ecfg' w3 eng where "New_config E c = Inr s"
      "backend_New E (backendConfig c s) = Inr b"
      "New_keys E c s (ecfgAtKeys E b) (worldAtKeys E c s w) = (Return (Inr ecfg'), w3)"
      "madns_NewEngine E ecfg' = Inr eng"
      "New E c w = New_listen E c (s\<lparr>engine := Some eng, mux := Some [(''.'', eng)]\<rparr>)
                     (w3\<lparr>calls := calls w3 @ [Call_NewEngine ecfg']\<rparr>)"
proof (cases "New_config E c")
  case (Inl e)
  then show ?thesis using ConfigError by (simp add: New_def)
next
  case s: (Inr s)
  show ?thesis
  proof (cases "backend_New E (backendConfig c s)")
    case (Inl e)
    with s show ?thesis using BackendError by (simp add: New_def)
  next
    case b: (Inr b)
    obtain r3 w3 where k: "New_keys E c s (ecfgAtKeys E b) (worldAtKeys E c s w) = (r3, w3)"
      by (cases "New_keys E c s (ecfgAtKeys E b) (worldAtKeys E c s w)")
    show ?thesis
    proof (cases r3)
      case Exit
      with s b k show ?thesis using KeyExit by (simp add: New_def)
    next
      case (Return x)
      show ?thesis
      proof (cases x)
        case (Inl e)
        with s b k Return show ?thesis using KeyError by (simp add: New_def)
      next
        case e: (Inr ecfg')
        show ?thesis
        proof (cases "madns_NewEngine E ecfg'")
          case (Inl err)
          with s b k Return e show ?thesis using EngineError by (simp add: New_def)
        next
          case (Inr eng)
          with s b k Return e show ?thesis using Listen by (simp add: New_def)
        qed
      qed
    qed
  qed
qed

lemma NewLogI:
  assumes "cs = map Call_backend_New bs @ map Call_os_Open (ks @ zs) @ map Call_NewEngine es @ ns"
    and "bs = (case New_config E c of Inl e \<Rightarrow> [] | Inr s \<Rightarrow> [backendConfig c s])"
    and "ks = [] \<or> PublicKey c \<noteq> [] \<and>
          (ks = [cpath E c (PublicKey c)] \<or>
           ks = [cpath E c (PublicKey c), cpath E c (PrivateKey c)])"
    and "zs = [] \<or> ZonePublicKey c \<noteq> [] \<and>
          (zs = [cpath E c (ZonePublicKey c)] \<or>
           zs = [cpath E c (ZonePublicKey c), cpath E c (ZonePrivateKey c)])"
    and "\<forall>e\<in>set es.
          (PublicKey c = [] \<longrightarrow> KSK e = None \<and> KSKPrivate e = None) \<and>
          (ZonePublicKey c = [] \<longrightarrow> ZSK e = None \<and> ZSKPrivate e = None)"
    and "opened ns = []" "\<forall>x. Call_NewEngine x \<notin> set ns" "\<forall>x. Call_backend_New x \<notin> set ns"
  shows "NewLog E c cs"
  unfolding NewLog_def using assms by blast

lemma cpath_cfg: "New_config E c = Inr s \<Longrightarrow> cpath E (cfg s) x = cpath E c x"
  by (simp add: cpath_def New_config_Inr(10))

text \<open>The key setup of New, started as New starts it.\<close>

lemma New_keys_at:
  assumes s: "New_config E c = Inr s"
    and k: "New_keys E c s (ecfgAtKeys E b) (worldAtKeys E c s w) = (r3, w3)"
  shows "sockets w3 = sockets w" "ncdnsVersion w3 = versionSummary E"
    "\<exists>ks zs. calls w3 = calls w @ [Call_backend_New (backendConfig c s)] @
                 map Call_os_Open (ks @ zs)
      \<and> (ks = [] \<or> PublicKey c \<noteq> [] \<and>
          (ks = [cpath E c (PublicKey c)] \<or>
           ks = [cpath E c (PublicKey c), cpath E c (PrivateKey c)]))
      \<and> (zs = [] \<or> ZonePublicKey c \<noteq> [] \<and>
          (zs = [cpath E c (ZonePublicKey c)] \<or>
           zs = [cpath E c (ZonePublicKey c), cpath E c (ZonePrivateKey c)]))"
    "\<forall>e2. r3 = Return (Inr e2) \<longrightarrow>
       (PublicKey c = [] \<longrightarrow> KSK e2 = None \<and> KSKPrivate e2 = None) \<and>
       (ZonePublicKey c = [] \<longrightarrow> ZSK e2 = None \<and> ZSKPrivate e2 = None) \<and>
       (PublicKey c \<noteq> [] \<longrightarrow> KSK e2 \<noteq> None) \<and>
       (KSK e2 \<noteq> None \<longrightarrow> ZSK e2 \<noteq> None)"
proof -
  note sm = New_keys_summary[OF k]
  from sm show "sockets w3 = sockets w" "ncdnsVersion w3 = versionSummary E" by simp_all
  from sm obtain ks zs where
    "calls w3 = calls (worldAtKeys E c s w) @ map Call_os_Open (ks @ zs)"
    "keyFiles E s (PublicKey c) (PrivateKey c) ks"
    "keyFiles E s (ZonePublicKey c) (ZonePrivateKey c) zs"
    by blast
  then have "calls w3 = calls w @ [Call_backend_New (backendConfig c s)] @
                 map Call_os_Open (ks @ zs)
      \<and> (ks = [] \<or> PublicKey c \<noteq> [] \<and>
          (ks = [cpath E c (PublicKey c)] \<or>
           ks = [cpath E c (PublicKey c), cpath E c (PrivateKey c)]))
      \<and> (zs = [] \<or> ZonePublicKey c \<noteq> [] \<and>
          (zs = [cpath E c (ZonePublicKey c)] \<or>
           zs = [cpath E c (ZonePublicKey c), cpath E c (ZonePrivateKey c)]))"
    by (simp add: keyFiles_def cpath_cfg[OF s])
  then show "\<exists>ks zs. calls w3 = calls w @ [Call_backend_New (backendConfig c s)] @
                 map Call_os_Open (ks @ zs)
      \<and> (ks = [] \<or> PublicKey c \<noteq> [] \<and>
          (ks = [cpath E c (PublicKey c)] \<or>
           ks = [cpath E c (PublicKey c), cpath E c (PrivateKey c)]))
      \<and> (zs = [] \<or> ZonePublicKey c \<noteq> [] \<and>
          (zs = [cpath E c (ZonePublicKey c)] \<or>
           zs = [cpath E c (ZonePublicKey c), cpath E c (ZonePrivateKey c)]))"
    by blast
  from sm show "\<forall>e2. r3 = Return (Inr e2) \<longrightarrow>
       (PublicKey c = [] \<longrightarrow> KSK e2 = None \<and> KSKPrivate e2 = None) \<and>
       (ZonePublicKey c = [] \<longrightarrow> ZSK e2 = None \<and> ZSKPrivate e2 = None) \<and>
       (PublicKey c \<noteq> [] \<longrightarrow> KSK e2 \<noteq> None) \<and>
       (KSK e2 \<noteq> None \<longrightarrow> ZSK e2 \<noteq> None)"
    by simp
qed

lemma New_listen_at:
  assumes s: "New_config E c = Inr s"
  shows "\<exists>s' err cs.
     New_listen E c (s\<lparr>engine := Some eng, mux := Some m\<rparr>) wa =
       (Return (Some s', err),
        wa\<lparr>calls := calls wa @ cs, sockets := sockets wa @ heldSockets s'\<rparr>) \<and>
     cfg s' = cfg s \<and> namecoinConn s' = namecoinConn s \<and> wgStart s' = 0 \<and>
     udpServer s' = None \<and> tcpServer s' = None \<and>
     opened cs = [] \<and> (\<forall>x. Call_NewEngine x \<notin> set cs) \<and> (\<forall>x. Call_backend_New x \<notin> set cs)"
proof -
  let ?s = "s\<lparr>engine := Some eng, mux := Some m\<rparr>"
  from New_config_Inr[OF s] have "tcpListener ?s = None" "udpConn ?s = None" by simp_all
  from New_listen_summary[OF this, of E c wa] New_config_Inr(1-3)[OF s]
  show ?thesis by simp
qed

lemma New_log:
  assumes "New E c w = (r, w')"
  shows "\<exists>cs. calls w' = calls w @ cs \<and> NewLog E c cs"
proof (cases rule: New_cases[of E c w])
  case (ConfigError e)
  with assms have "calls w' = calls w @ []" by auto
  moreover have "NewLog E c []"
    using ConfigError(1)
    by (rule_tac NewLogI[of _ "[]" "[]" "[]" "[]" "[]"]) simp_all
  ultimately show ?thesis by blast
next
  case (BackendError s e)
  with assms have "calls w' = calls w @ [Call_backend_New (backendConfig c s)]" by auto
  moreover have "NewLog E c [Call_backend_New (backendConfig c s)]"
    using BackendError(1)
    by (rule_tac NewLogI[of _ "[backendConfig c s]" "[]" "[]" "[]" "[]"]) simp_all
  ultimately show ?thesis by blast
next
  case (KeyExit s b w3)
  from New_keys_at(3)[OF KeyExit(1,3)] obtain ks zs where
    c: "calls w3 = calls w @ [Call_backend_New (backendConfig c s)] @ map Call_os_Open (ks @ zs)"
    and k: "ks = [] \<or> PublicKey c \<noteq> [] \<and>
          (ks = [cpath E c (PublicKey c)] \<or>
           ks = [cpath E c (PublicKey c), cpath E c (PrivateKey c)])"
    and z: "zs = [] \<or> ZonePublicKey c \<noteq> [] \<and>
          (zs = [cpath E c (ZonePublicKey c)] \<or>
           zs = [cpath E c (ZonePublicKey c), cpath E c (ZonePrivateKey c)])"
    by blast
  have "NewLog E c ([Call_backend_New (backendConfig c s)] @ map Call_os_Open (ks @ zs))"
    using KeyExit(1) k z
    by (rule_tac NewLogI[of _ "[backendConfig c s]" ks zs "[]" "[]"]) simp_all
  with c KeyExit(4) assms show ?thesis by auto
next
  case (KeyError s b e w3)
  from New_keys_at(3)[OF KeyError(1,3)] obtain ks zs where
    c: "calls w3 = calls w @ [Call_backend_New (backendConfig c s)] @ map Call_os_Open (ks @ zs)"
    and k: "ks = [] \<or> PublicKey c \<noteq> [] \<and>
          (ks = [cpath E c (PublicKey c)] \<or>
           ks = [cpath E c (PublicKey c), cpath E c (PrivateKey c)])"
    and z: "zs = [] \<or> ZonePublicKey c \<noteq> [] \<and>
          (zs = [cpath E c (ZonePublicKey c)] \<or>
           zs = [cpath E c (ZonePublicKey c), cpath E c (ZonePrivateKey c)])"
    by blast
  have "NewLog E c ([Call_backend_New (backendConfig c s)] @ map Call_os_Open (ks @ zs))"
    using KeyError(1) k z
    by (rule_tac NewLogI[of _ "[backendConfig c s]" ks zs "[]" "[]"]) simp_all
  with c KeyError(4) assms show ?thesis by auto
next
  case (EngineError s b ecfg' w3 e)
  from New_keys_at(3)[OF EngineError(1,3)] obtain ks zs where
    c: "calls w3 = calls w @ [Call_backend_New (backendConfig c s)] @ map Call_os_Open (ks @ zs)"
    and k: "ks = [] \<or> PublicKey c \<noteq> [] \<and>
          (ks = [cpath E c (PublicKey c)] \<or>
           ks = [cpath E c (PublicKey c), cpath E c (PrivateKey c)])"
    and z: "zs = [] \<or> ZonePublicKey c \<noteq> [] \<and>
          (zs = [cpath E c (ZonePublicKey c)] \<or>
           zs = [cpath E c (ZonePublicKey c), cpath E c (ZonePrivateKey c)])"
    by blast
  from New_keys_at(4)[OF EngineError(1,3)]
  have e: "(PublicKey c = [] \<longrightarrow> KSK ecfg' = None \<and> KSKPrivate ecfg' = None) \<and>
       (ZonePublicKey c = [] \<longrightarrow> ZSK ecfg' = None \<and> ZSKPrivate ecfg' = None)"
    by simp
  have "NewLog E c ([Call_backend_New (backendConfig c s)] @ map Call_os_Open (ks @ zs) @
          [Call_NewEngine ecfg'])"
    using EngineError(1) k z e
    by (rule_tac NewLogI[of _ "[backendConfig c s]" ks zs "[ecfg']" "[]"]) simp_all
  with c EngineError(5) assms show ?thesis by auto
next
  case (Listen s b ecfg' w3 eng)
  from New_keys_at(3)[OF Listen(1,3)] obtain ks zs where
    c: "calls w3 = calls w @ [Call_backend_New (backendConfig c s)] @ map Call_os_Open (ks @ zs)"
    and k: "ks = [] \<or> PublicKey c \<noteq> [] \<and>
          (ks = [cpath E c (PublicKey c)] \<or>
           ks = [cpath E c (PublicKey c), cpath E c (PrivateKey c)])"
    and z: "zs = [] \<or> ZonePublicKey c \<noteq> [] \<and>
          (zs = [cpath E c (ZonePublicKey c)] \<or>
           zs = [cpath E c (ZonePublicKey c), cpath E c (ZonePrivateKey c)])"
    by blast
  from New_keys_at(4)[OF Listen(1,3)]
  have e: "(PublicKey c = [] \<longrightarrow> KSK ecfg' = None \<and> KSKPrivate ecfg' = None) \<and>
       (ZonePublicKey c = [] \<longrightarrow> ZSK ecfg' = None \<and> ZSKPrivate ecfg' = None)"
    by simp
  from New_listen_at[OF Listen(1), where eng = eng and m = "[(''.'', eng)]"
      and wa = "w3\<lparr>calls := calls w3 @ [Call_NewEngine ecfg']\<rparr>"] Listen(5) assms
  obtain ns where n: "calls w' = calls w3 @ [Call_NewEngine ecfg'] @ ns"
    "opened ns = []" "\<forall>x. Call_NewEngine x \<notin> set ns" "\<forall>x. Call_backend_New x \<notin> set ns"
    by auto
  have "NewLog E c ([Call_backend_New (backendConfig c s)] @ map Call_os_Open (ks @ zs) @
          [Call_NewEngine ecfg'] @ ns)"
    using Listen(1) k z e n(2-4)
    by (rule_tac NewLogI[of _ "[backendConfig c s]" ks zs "[ecfg']" ns]) simp_all
  with c n(1) show ?thesis by auto
qed

lemma New_sockets:
  assumes "New E c w = (r, w')"
  shows "sockets w' = sockets w @ (case returnedServer r of None \<Rightarrow> [] | Some s \<Rightarrow> heldSockets s)"
    and "ncdnsVersion w' = versionSummary E"
proof -
  have "sockets w' = sockets w @ (case returnedServer r of None \<Rightarrow> [] | Some s \<Rightarrow> heldSockets s)
      \<and> ncdnsVersion w' = versionSummary E"
  proof (cases rule: New_cases[of E c w])
    case (ConfigError e)
    with assms show ?thesis by auto
  next
    case (BackendError s e)
    from New_config_Inr(4,5)[OF BackendError(1)] have "heldSockets s = []"
      by (simp add: heldSockets_def)
    with BackendError assms show ?thesis by auto
  next
    case (KeyExit s b w3)
    with New_keys_at(1,2)[OF KeyExit(1,3)] assms show ?thesis by auto
  next
    case (KeyError s b e w3)
    with New_keys_at(1,2)[OF KeyError(1,3)] assms show ?thesis by auto
  next
    case (EngineError s b ecfg' w3 e)
    from New_config_Inr(4,5)[OF EngineError(1)] have "heldSockets s = []"
      by (simp add: heldSockets_def)
    with EngineError New_keys_at(1,2)[OF EngineError(1,3)] assms show ?thesis by auto
  next
    case (Listen s b ecfg' w3 eng)
    from New_listen_at[OF Listen(1), where eng = eng and m = "[(''.'', eng)]"
      and wa = "w3\<lparr>calls := calls w3 @ [Call_NewEngine ecfg']\<rparr>"] Listen(5) assms
      New_keys_at(1,2)[OF Listen(1,3)]
    show ?thesis by auto
  qed
  then show "sockets w' = sockets w @ (case returnedServer r of None \<Rightarrow> [] | Some s \<Rightarrow> heldSockets s)"
    and "ncdnsVersion w' = versionSummary E" by simp_all
qed

lemma New_server:
  assumes "New E c w = (r, w')" "returnedServer r = Some s'"
  shows "\<exists>s. New_config E c = Inr s \<and> cfg s' = cfg s \<and> namecoinConn s' = namecoinConn s"
    and "wgStart s' = 0" and "udpServer s' = None" and "tcpServer s' = None"
proof -
  have "(\<exists>s. New_config E c = Inr s \<and> cfg s' = cfg s \<and> namecoinConn s' = namecoinConn s)
    \<and> wgStart s' = 0 \<and> udpServer s' = None \<and> tcpServer s' = None"
  proof (cases rule: New_cases[of E c w])
    case (ConfigError e)
    with assms show ?thesis by auto
  next
    case (BackendError s e)
    with assms New_config_Inr(1-3)[OF BackendError(1)] show ?thesis by auto
  next
    case (KeyExit s b w3)
    with assms show ?thesis by auto
  next
    case (KeyError s b e w3)
    with assms show ?thesis by auto
  next
    case (EngineError s b ecfg' w3 e)
    with assms New_config_Inr(1-3)[OF EngineError(1)] show ?thesis by auto
  next
    case (Listen s b ecfg' w3 eng)
    from New_listen_at[OF Listen(1), where eng = eng and m = "[(''.'', eng)]"
      and wa = "w3\<lparr>calls := calls w3 @ [Call_NewEngine ecfg']\<rparr>"] Listen(1,5) assms
    show ?thesis by auto
  qed
  then show "\<exists>s. New_config E c = Inr s \<and> cfg s' = cfg s \<and> namecoinConn s' = namecoinConn s"
    and "wgStart s' = 0" and "udpServer s' = None" and "tcpServer s' = None"
    by simp_all
qed

section \<open>Reading the log of calls\<close>

lemma opened_append: "opened (xs @ ys) = opened xs @ opened ys"
  by (induction xs rule: opened.induct) simp_all

lemma backendCalls_append: "backendCalls (xs @ ys) = backendCalls xs @ backendCalls ys"
  by (induction xs rule: backendCalls.induct) simp_all

lemma engineCalls_append: "engineCalls (xs @ ys) = engineCalls xs @ engineCalls ys"
  by (induction xs rule: engineCalls.induct) simp_all

lemma views_of_opens:
  "opened (map Call_os_Open xs) = xs" "backendCalls (map Call_os_Open xs) = []"
  "engineCalls (map Call_os_Open xs) = []" "filter isNetworkCall (map Call_os_Open xs) = []"
  by (induction xs) simp_all

lemma views_of_backends:
  "opened (map Call_backend_New bs) = []" "backendCalls (map Call_backend_New bs) = bs"
  "engineCalls (map Call_backend_New bs) = []"
  "filter isNetworkCall (map Call_backend_New bs) = []"
  by (induction bs) simp_all

lemma views_of_engines:
  "opened (map Call_NewEngine es) = []" "backendCalls (map Call_NewEngine es) = []"
  "engineCalls (map Call_NewEngine es) = es"
  by (induction es) simp_all

lemma backendCalls_none: "\<forall>x. Call_backend_New x \<notin> set ns \<Longrightarrow> backendCalls ns = []"
  by (induction ns rule: backendCalls.induct) auto

lemma engineCalls_none: "\<forall>x. Call_NewEngine x \<notin> set ns \<Longrightarrow> engineCalls ns = []"
  by (induction ns rule: engineCalls.induct) auto

lemma NewLog_views:
  assumes "NewLog E c cs"
  shows "backendCalls cs = (case New_config E c of Inl e \<Rightarrow> [] | Inr s \<Rightarrow> [backendConfig c s])"
    and "\<exists>ks zs. opened cs = ks @ zs
      \<and> (ks = [] \<or> PublicKey c \<noteq> [] \<and>
          (ks = [cpath E c (PublicKey c)] \<or>
           ks = [cpath E c (PublicKey c), cpath E c (PrivateKey c)]))
      \<and> (zs = [] \<or> ZonePublicKey c \<noteq> [] \<and>
          (zs = [cpath E c (ZonePublicKey c)] \<or>
           zs = [cpath E c (ZonePublicKey c), cpath E c (ZonePrivateKey c)]))"
    and "\<forall>e\<in>set (engineCalls cs).
          (PublicKey c = [] \<longrightarrow> KSK e = None \<and> KSKPrivate e = None) \<and>
          (ZonePublicKey c = [] \<longrightarrow> ZSK e = None \<and> ZSKPrivate e = None)"
proof -
  from assms obtain bs ks zs es ns where
    cs: "cs = map Call_backend_New bs @ map Call_os_Open (ks @ zs) @ map Call_NewEngine es @ ns"
    and bs: "bs = (case New_config E c of Inl e \<Rightarrow> [] | Inr s \<Rightarrow> [backendConfig c s])"
    and k: "ks = [] \<or> PublicKey c \<noteq> [] \<and>
          (ks = [cpath E c (PublicKey c)] \<or>
           ks = [cpath E c (PublicKey c), cpath E c (PrivateKey c)])"
    and z: "zs = [] \<or> ZonePublicKey c \<noteq> [] \<and>
          (zs = [cpath E c (ZonePublicKey c)] \<or>
           zs = [cpath E c (ZonePublicKey c), cpath E c (ZonePrivateKey c)])"
    and e: "\<forall>e\<in>set es.
          (PublicKey c = [] \<longrightarrow> KSK e = None \<and> KSKPrivate e = None) \<and>
          (ZonePublicKey c = [] \<longrightarrow> ZSK e = None \<and> ZSKPrivate e = None)"
    and n: "opened ns = []" "\<forall>x. Call_NewEngine x \<notin> set ns" "\<forall>x. Call_backend_New x \<notin> set ns"
    unfolding NewLog_def by blast
  from cs n have b: "backendCalls cs = bs"
    by (simp add: backendCalls_append views_of_opens views_of_backends views_of_engines
        backendCalls_none)
  from cs n have o: "opened cs = ks @ zs"
    by (simp add: opened_append views_of_opens views_of_backends views_of_engines
        del: map_append)
  from cs n have g: "engineCalls cs = es"
    by (simp add: engineCalls_append views_of_opens views_of_backends views_of_engines
        engineCalls_none del: map_append)
  from b bs show "backendCalls cs =
      (case New_config E c of Inl e \<Rightarrow> [] | Inr s \<Rightarrow> [backendConfig c s])"
    by simp
  from o k z show "\<exists>ks zs. opened cs = ks @ zs
      \<and> (ks = [] \<or> PublicKey c \<noteq> [] \<and>
          (ks = [cpath E c (PublicKey c)] \<or>
           ks = [cpath E c (PublicKey c), cpath E c (PrivateKey c)]))
      \<and> (zs = [] \<or> ZonePublicKey c \<noteq> [] \<and>
          (zs = [cpath E c (ZonePublicKey c)] \<or>
           zs = [cpath E c (ZonePublicKey c), cpath E c (ZonePrivateKey c)]))"
    by blast
  from g e show "\<forall>e\<in>set (engineCalls cs).
          (PublicKey c = [] \<longrightarrow> KSK e = None \<and> KSKPrivate e = None) \<and>
          (ZonePublicKey c = [] \<longrightarrow> ZSK e = None \<and> ZSKPrivate e = None)"
    by simp
qed

lemma New_newCalls:
  "NewLog E c (newCalls w (snd (New E c w)))"
proof -
  obtain r w' where n: "New E c w = (r, w')" by (cases "New E c w")
  from New_log[OF n] obtain cs where "calls w' = calls w @ cs" "NewLog E c cs" by blast
  with n show ?thesis by (simp add: newCalls_def)
qed

section \<open>Running the definitions on the concrete environment\<close>

lemmas example_defs = exampleEnv_def udpBusyEnv_def defaultConfig_def world0_def exampleServer_def
  exampleParseIP_def exampleJoin_def exampleOpen_def exampleReadRR_def exampleReadPrivateKey_def

lemmas New_defs = New_def New_config_def New_keys_def New_KSK_def New_ZSK_def New_listen_def
  loadKey_def cpath_def backendConfig_def versionSummary_def Fatale_def Let_def

section \<open>The readiness barrier of Start\<close>

lemma startInv_init: "wgStart s = 0 \<Longrightarrow> startInv lib (Start_init s)"
  by (simp add: startInv_def barrierInv_def Start_init_def)

lemma runListener_udp: "runListener s ''udp'' \<noteq> None"
  by (simp add: runListener_def Let_def)

lemma runListener_tcp: "runListener s ''tcp'' \<noteq> None"
  by (simp add: runListener_def Let_def)

text \<open>What one statement of Start changes, seen through the components the invariant reads.\<close>

lemma mainStep_view:
  assumes "mainStep p = Some p'" "crashed p' = None" "crashed p = None"
  shows "udpLoop p' = (udpLoop p)\<lparr>status := (if pc p = AtRunUDP then Serving else status (udpLoop p))\<rparr>
       \<and> tcpLoop p' = (tcpLoop p)\<lparr>status := (if pc p = AtRunTCP then Serving else status (tcpLoop p))\<rparr>
       \<and> wgStart (srv p') = (if pc p = AtAdd then wgStart (srv p) + 2 else wgStart (srv p))
       \<and> (pc p = AtAdd \<longrightarrow> pc p' = AtRunUDP \<and> 0 \<le> wgStart (srv p) + 2)
       \<and> (pc p = AtRunUDP \<longrightarrow> pc p' = AtRunTCP)
       \<and> (pc p = AtRunTCP \<longrightarrow> pc p' = AtWait)
       \<and> (pc p = AtWait \<longrightarrow> pc p' = AtLogInfo \<and> wgStart (srv p) = 0)
       \<and> (pc p = AtLogInfo \<longrightarrow> pc p' = Returned None)
       \<and> \<not> isReturned (pc p)"
proof (cases "pc p")
  case AtAdd
  with assms show ?thesis
    by (auto simp: mainStep_def wgAdd_def split: if_splits)
next
  case AtRunUDP
  with assms show ?thesis
    by (auto simp: mainStep_def split: option.splits)
next
  case AtRunTCP
  with assms show ?thesis
    by (auto simp: mainStep_def split: option.splits)
next
  case AtWait
  with assms show ?thesis
    by (auto simp: mainStep_def split: if_splits)
next
  case AtLogInfo
  with assms show ?thesis
    by (auto simp: mainStep_def)
next
  case (Returned r)
  with assms show ?thesis
    by (simp add: mainStep_def)
qed

lemma barrierInv_main:
  assumes "barrierInv lib wg l su nu st nt"
    and "wg' = (if l = AtAdd then wg + 2 else wg)"
    and "su' = (if l = AtRunUDP then Serving else su)"
    and "st' = (if l = AtRunTCP then Serving else st)"
    and "l = AtAdd \<longrightarrow> l' = AtRunUDP" "l = AtRunUDP \<longrightarrow> l' = AtRunTCP"
        "l = AtRunTCP \<longrightarrow> l' = AtWait" "l = AtWait \<longrightarrow> l' = AtLogInfo \<and> wg = 0"
        "l = AtLogInfo \<longrightarrow> l' = Returned None" "\<not> isReturned l"
  shows "barrierInv lib wg' l' su' nu st' nt"
  using assms by (cases l) (auto simp: barrierInv_def)

lemma startInv_mainStep:
  assumes "startInv lib p" "mainStep p = Some p'" "crashed p' = None" "crashed p = None"
  shows "startInv lib p'"
proof -
  note v = mainStep_view[OF assms(2,3,4)]
  from v have u: "status (udpLoop p') = (if pc p = AtRunUDP then Serving else status (udpLoop p))"
      "notified (udpLoop p') = notified (udpLoop p)"
      "status (tcpLoop p') = (if pc p = AtRunTCP then Serving else status (tcpLoop p))"
      "notified (tcpLoop p') = notified (tcpLoop p)"
    by simp_all
  from assms(1) have "barrierInv lib (wgStart (srv p)) (pc p) (status (udpLoop p))
      (notified (udpLoop p)) (status (tcpLoop p)) (notified (tcpLoop p))"
    by (simp add: startInv_def)
  from barrierInv_main[OF this, of "wgStart (srv p')" "status (udpLoop p')" "status (tcpLoop p')" "pc p'"]
    v u
  show ?thesis by (simp add: startInv_def)
qed


lemma step_not_crashed: "step lib a p = Some p' \<Longrightarrow> crashed p = None"
  by (simp add: step_def split: if_splits)

lemma mainStep_crash:
  assumes "mainStep p = Some p'" "crashed p' \<noteq> None" "crashed p = None"
  shows "\<exists>c. p' = p\<lparr>crashed := Some c\<rparr>"
  using assms
  by (cases "pc p") (auto simp: mainStep_def split: option.splits if_splits)

lemma step_crash:
  assumes "step lib a p = Some p'" "crashed p' \<noteq> None"
  shows "\<exists>c. p' = p\<lparr>crashed := Some c\<rparr>"
proof (cases a)
  case Main
  with assms mainStep_crash[of p p'] show ?thesis
    by (simp add: step_def split: if_splits)
next
  case (Notify t)
  with assms show ?thesis
    by (cases t) (auto simp: step_def split: if_splits option.splits)
next
  case (ServeReturns t err)
  with assms show ?thesis
    by (cases t; cases err) (auto simp: step_def Fatale_def split: if_splits)
qed

lemma step_Notify_view:
  assumes "step lib (Notify t) p = Some p'" "crashed p' = None"
  shows "pc p' = pc p \<and> wgStart (srv p') = wgStart (srv p) - 1 \<and> 0 \<le> wgStart (srv p) - 1
       \<and> status (loopOf t p) = Serving \<and> notified (loopOf t p) < lib t
       \<and> loopOf t p' = (loopOf t p)\<lparr>notified := Suc (notified (loopOf t p))\<rparr>
       \<and> (t = UDP \<longrightarrow> tcpLoop p' = tcpLoop p) \<and> (t = TCP \<longrightarrow> udpLoop p' = udpLoop p)"
  using assms
  by (cases t) (auto simp: step_def wgAdd_def split: if_splits)

lemma step_ServeReturns_view:
  assumes "step lib (ServeReturns t err) p = Some p'" "crashed p' = None"
  shows "pc p' = pc p \<and> srv p' = srv p \<and> status (loopOf t p) = Serving
       \<and> loopOf t p' = (loopOf t p)\<lparr>status := Ended\<rparr>
       \<and> (t = UDP \<longrightarrow> tcpLoop p' = tcpLoop p) \<and> (t = TCP \<longrightarrow> udpLoop p' = udpLoop p)"
  using assms
  by (cases t; cases err) (auto simp: step_def Fatale_def split: if_splits)

lemma barrierInv_notify_udp:
  assumes "barrierInv lib wg l Serving nu st nt" "nu < lib UDP"
  shows "barrierInv lib (wg - 1) l Serving (Suc nu) st nt"
  using assms by (auto simp: barrierInv_def)

lemma barrierInv_notify_tcp:
  assumes "barrierInv lib wg l su nu Serving nt" "nt < lib TCP"
  shows "barrierInv lib (wg - 1) l su nu Serving (Suc nt)"
  using assms by (auto simp: barrierInv_def)

lemma barrierInv_ended_udp:
  assumes "barrierInv lib wg l Serving nu st nt"
  shows "barrierInv lib wg l Ended nu st nt"
  using assms by (auto simp: barrierInv_def)

lemma barrierInv_ended_tcp:
  assumes "barrierInv lib wg l su nu Serving nt"
  shows "barrierInv lib wg l su nu Ended nt"
  using assms by (auto simp: barrierInv_def)

lemma startInv_step:
  assumes "startInv lib p" "step lib a p = Some p'"
  shows "startInv lib p'"
proof (cases "crashed p' = None")
  case False
  with step_crash[OF assms(2)] obtain c where "p' = p\<lparr>crashed := Some c\<rparr>" by blast
  with assms(1) show ?thesis by (simp add: startInv_def)
next
  case True
  note nc = step_not_crashed[OF assms(2)]
  show ?thesis
  proof (cases a)
    case Main
    with assms(2) nc have "mainStep p = Some p'" by (simp add: step_def)
    from startInv_mainStep[OF assms(1) this True nc] show ?thesis .
  next
    case (Notify t)
    with assms(2) have st: "step lib (Notify t) p = Some p'" by simp
    note v = step_Notify_view[OF st True]
    show ?thesis
    proof (cases t)
      case UDP
      with v have e: "pc p' = pc p" "wgStart (srv p') = wgStart (srv p) - 1"
          "status (udpLoop p) = Serving" "notified (udpLoop p) < lib UDP"
          "status (udpLoop p') = Serving" "notified (udpLoop p') = Suc (notified (udpLoop p))"
          "tcpLoop p' = tcpLoop p"
        by simp_all
      from assms(1) e(3) have "barrierInv lib (wgStart (srv p)) (pc p) Serving
          (notified (udpLoop p)) (status (tcpLoop p)) (notified (tcpLoop p))"
        by (simp add: startInv_def)
      from barrierInv_notify_udp[OF this e(4)] e show ?thesis
        by (simp add: startInv_def)
    next
      case TCP
      with v have e: "pc p' = pc p" "wgStart (srv p') = wgStart (srv p) - 1"
          "status (tcpLoop p) = Serving" "notified (tcpLoop p) < lib TCP"
          "status (tcpLoop p') = Serving" "notified (tcpLoop p') = Suc (notified (tcpLoop p))"
          "udpLoop p' = udpLoop p"
        by simp_all
      from assms(1) e(3) have "barrierInv lib (wgStart (srv p)) (pc p) (status (udpLoop p))
          (notified (udpLoop p)) Serving (notified (tcpLoop p))"
        by (simp add: startInv_def)
      from barrierInv_notify_tcp[OF this e(4)] e show ?thesis
        by (simp add: startInv_def)
    qed
  next
    case (ServeReturns t err)
    with assms(2) have st: "step lib (ServeReturns t err) p = Some p'" by simp
    note v = step_ServeReturns_view[OF st True]
    show ?thesis
    proof (cases t)
      case UDP
      with v have e: "pc p' = pc p" "srv p' = srv p" "status (udpLoop p) = Serving"
          "status (udpLoop p') = Ended" "notified (udpLoop p') = notified (udpLoop p)"
          "tcpLoop p' = tcpLoop p"
        by simp_all
      from assms(1) e(3) have "barrierInv lib (wgStart (srv p)) (pc p) Serving
          (notified (udpLoop p)) (status (tcpLoop p)) (notified (tcpLoop p))"
        by (simp add: startInv_def)
      from barrierInv_ended_udp[OF this] e show ?thesis
        by (simp add: startInv_def)
    next
      case TCP
      with v have e: "pc p' = pc p" "srv p' = srv p" "status (tcpLoop p) = Serving"
          "status (tcpLoop p') = Ended" "notified (tcpLoop p') = notified (tcpLoop p)"
          "udpLoop p' = udpLoop p"
        by simp_all
      from assms(1) e(3) have "barrierInv lib (wgStart (srv p)) (pc p) (status (udpLoop p))
          (notified (udpLoop p)) Serving (notified (tcpLoop p))"
        by (simp add: startInv_def)
      from barrierInv_ended_tcp[OF this] e show ?thesis
        by (simp add: startInv_def)
    qed
  qed
qed

lemma startInv_run: "startInv lib p \<Longrightarrow> run lib acts p = Some p' \<Longrightarrow> startInv lib p'"
proof (induction acts arbitrary: p)
  case Nil
  then show ?case by simp
next
  case (Cons a acts)
  from Cons.prems(2) obtain p1 where s: "step lib a p = Some p1" and r: "run lib acts p1 = Some p'"
    by (auto split: option.splits)
  from Cons.IH[OF startInv_step[OF Cons.prems(1) s] r] show ?case .
qed

lemma returned_nil_step:
  assumes "\<forall>r. pc p = Returned r \<longrightarrow> r = None" "step lib a p = Some p'"
  shows "\<forall>r. pc p' = Returned r \<longrightarrow> r = None"
proof (cases "crashed p' = None")
  case False
  with step_crash[OF assms(2)] obtain c where "p' = p\<lparr>crashed := Some c\<rparr>" by blast
  with assms(1) show ?thesis by simp
next
  case True
  note nc = step_not_crashed[OF assms(2)]
  show ?thesis
  proof (cases a)
    case Main
    with assms(2) nc have "mainStep p = Some p'" by (simp add: step_def)
    from mainStep_view[OF this True nc] show ?thesis
      by (cases "pc p") auto
  next
    case (Notify t)
    with assms(2) have "step lib (Notify t) p = Some p'" by simp
    from step_Notify_view[OF this True] assms(1) show ?thesis by simp
  next
    case (ServeReturns t err)
    with assms(2) have "step lib (ServeReturns t err) p = Some p'" by simp
    from step_ServeReturns_view[OF this True] assms(1) show ?thesis by simp
  qed
qed

lemma returned_nil_run:
  "\<forall>r. pc p = Returned r \<longrightarrow> r = None \<Longrightarrow> run lib acts p = Some p' \<Longrightarrow>
   \<forall>r. pc p' = Returned r \<longrightarrow> r = None"
proof (induction acts arbitrary: p)
  case Nil
  then show ?case by simp
next
  case (Cons a acts)
  from Cons.prems(2) obtain p1 where s: "step lib a p = Some p1" and r: "run lib acts p1 = Some p'"
    by (auto split: option.splits)
  from Cons.IH[OF returned_nil_step[OF Cons.prems(1) s] r] show ?case .
qed

section \<open>The claims\<close>

lemma New_config_ok:
  assumes "VanityIPs c = [] \<or> (\<exists>ips. vanityLoop E (Split (VanityIPs c) CHR '','') (vanityIPs c) = Inr ips)"
  shows "\<exists>s. New_config E c = Inr s"
proof (cases "New_config E c")
  case (Inl e)
  with assms show ?thesis by (auto simp: New_config_Inl)
next
  case (Inr s)
  then show ?thesis by blast
qed

text \<open>
  Claim C5. Vanity-IP normalization: the string \<^verbatim>\<open>VanityIPs\<close> is split on commas and each
  entry is parsed by \<^verbatim>\<open>net.ParseIP\<close>. For a configuration as a caller builds it (the
  unexported normalized field still nil): the empty string yields the empty list; if an entry
  does not parse, \<^verbatim>\<open>New\<close> returns no server and the error
  \<^verbatim>\<open>Couldn't parse IP: \<close> followed by the first such entry, having done nothing but set
  the version string; if all entries parse, the normalized list is the list of the parsed
  addresses in input order. The normalized list is read where it can be observed: in the
  server that \<^verbatim>\<open>New\<close> returns and in the configuration it hands to \<^verbatim>\<open>backend.New\<close>.
\<close>

theorem New_vanityIPs:
  assumes "vanityIPs c = []"
  shows "(VanityIPs c = [] \<longrightarrow>
           (\<forall>s e. fst (New E c w) = Return (Some s, e) \<longrightarrow> vanityIPs (cfg s) = []) \<and>
           map be_VanityIPs (backendCalls (newCalls w (snd (New E c w)))) = [[]])
       \<and> (VanityIPs c \<noteq> [] \<longrightarrow>
           (\<forall>tok. find (\<lambda>t. net_ParseIP E t = None) (Split (VanityIPs c) CHR '','') = Some tok \<longrightarrow>
              New E c w = (Return (None, Some (Errorf (''Couldn't parse IP: '' @ tok))),
                           w\<lparr>ncdnsVersion := versionSummary E\<rparr>)))
       \<and> (VanityIPs c \<noteq> [] \<longrightarrow>
           (\<forall>t\<in>set (Split (VanityIPs c) CHR '',''). net_ParseIP E t \<noteq> None) \<longrightarrow>
           (\<forall>s e. fst (New E c w) = Return (Some s, e) \<longrightarrow>
              vanityIPs (cfg s) =
                map (\<lambda>t. the (net_ParseIP E t)) (Split (VanityIPs c) CHR '','')) \<and>
           map be_VanityIPs (backendCalls (newCalls w (snd (New E c w)))) =
             [map (\<lambda>t. the (net_ParseIP E t)) (Split (VanityIPs c) CHR '','')])"
proof -
  let ?toks = "Split (VanityIPs c) CHR '',''"
  let ?new = "newCalls w (snd (New E c w))"
  note bc = NewLog_views(1)[OF New_newCalls[of E c w]]
  have srv: "\<exists>s0. New_config E c = Inr s0 \<and> cfg s = cfg s0"
    if "fst (New E c w) = Return (Some s, e)" for s e
  proof -
    from that have "New E c w = (Return (Some s, e), snd (New E c w))"
      by (metis prod.collapse)
    from New_server(1)[OF this] show ?thesis by auto
  qed
  have empty: "(\<forall>s e. fst (New E c w) = Return (Some s, e) \<longrightarrow> vanityIPs (cfg s) = []) \<and>
           map be_VanityIPs (backendCalls ?new) = [[]]" if v: "VanityIPs c = []"
  proof -
    from v have "\<exists>s0. New_config E c = Inr s0"
      by (simp add: New_config_ok)
    then obtain s0 where s0: "New_config E c = Inr s0" by blast
    from New_config_Inr(7)[OF s0] v assms have i: "vanityIPs (cfg s0) = []" by simp
    from bc s0 i have "map be_VanityIPs (backendCalls ?new) = [[]]"
      by (simp add: backendConfig_def)
    moreover have "vanityIPs (cfg s) = []" if "fst (New E c w) = Return (Some s, e)" for s e
      using srv[OF that] s0 i by auto
    ultimately show ?thesis by blast
  qed
  have bad: "New E c w = (Return (None, Some (Errorf (''Couldn't parse IP: '' @ tok))),
                           w\<lparr>ncdnsVersion := versionSummary E\<rparr>)"
    if v: "VanityIPs c \<noteq> []" and f: "find (\<lambda>t. net_ParseIP E t = None) ?toks = Some tok" for tok
  proof -
    from vanityLoop_first[OF f, of "vanityIPs c"] v
    have "New_config E c = Inl (Errorf (''Couldn't parse IP: '' @ tok))"
      by (simp add: New_config_Inl)
    then show ?thesis by (simp add: New_def)
  qed
  have good: "(\<forall>s e. fst (New E c w) = Return (Some s, e) \<longrightarrow>
              vanityIPs (cfg s) = map (\<lambda>t. the (net_ParseIP E t)) ?toks) \<and>
           map be_VanityIPs (backendCalls ?new) = [map (\<lambda>t. the (net_ParseIP E t)) ?toks]"
    if v: "VanityIPs c \<noteq> []" and a: "\<forall>t\<in>set ?toks. net_ParseIP E t \<noteq> None"
  proof -
    from vanityLoop_all[OF a, of "vanityIPs c"] assms
    have l: "vanityLoop E ?toks (vanityIPs c) = Inr (map (\<lambda>t. the (net_ParseIP E t)) ?toks)"
      by simp
    then have "\<exists>s0. New_config E c = Inr s0"
      by (simp add: New_config_ok)
    then obtain s0 where s0: "New_config E c = Inr s0" by blast
    from New_config_Inr(8)[OF s0] v l
    have i: "vanityIPs (cfg s0) = map (\<lambda>t. the (net_ParseIP E t)) ?toks" by simp
    from bc s0 i have "map be_VanityIPs (backendCalls ?new) =
        [map (\<lambda>t. the (net_ParseIP E t)) ?toks]"
      by (simp add: backendConfig_def)
    moreover have "vanityIPs (cfg s) = map (\<lambda>t. the (net_ParseIP E t)) ?toks"
      if "fst (New E c w) = Return (Some s, e)" for s e
      using srv[OF that] s0 i by auto
    ultimately show ?thesis by blast
  qed
  from empty bad good show ?thesis by blast
qed

text \<open>
  The three cases on the concrete environment: no vanity IPs, \<^verbatim>\<open>1.2.3.4,not-an-ip\<close> and
  \<^verbatim>\<open>1.2.3.4,::1\<close>.
\<close>

theorem New_vanityIPs_witness:
  "vanityIPs defaultConfig = []
   \<and> map be_VanityIPs (backendCalls (newCalls world0 (snd (New exampleEnv defaultConfig world0))))
       = [[]]
   \<and> find (\<lambda>t. net_ParseIP exampleEnv t = None) (Split ''1.2.3.4,not-an-ip'' CHR '','')
       = Some ''not-an-ip''
   \<and> fst (New exampleEnv (defaultConfig\<lparr>VanityIPs := ''1.2.3.4,not-an-ip''\<rparr>) world0)
       = Return (None, Some (Errorf ''Couldn't parse IP: not-an-ip''))
   \<and> map (net_ParseIP exampleEnv) (Split ''1.2.3.4,::1'' CHR '','') =
       [Some [0, 0, 0, 0, 0, 0, 0, 0, 0, 0, 255, 255, 1, 2, 3, 4],
        Some [0, 0, 0, 0, 0, 0, 0, 0, 0, 0, 0, 0, 0, 0, 0, 1]]
   \<and> map be_VanityIPs (backendCalls (newCalls world0
         (snd (New exampleEnv (defaultConfig\<lparr>VanityIPs := ''1.2.3.4,::1''\<rparr>) world0))))
       = [[[0, 0, 0, 0, 0, 0, 0, 0, 0, 0, 255, 255, 1, 2, 3, 4],
           [0, 0, 0, 0, 0, 0, 0, 0, 0, 0, 0, 0, 0, 0, 0, 1]]]"
proof -
  have h: "vanityIPs defaultConfig = []"
    "vanityIPs (defaultConfig\<lparr>VanityIPs := ''1.2.3.4,not-an-ip''\<rparr>) = []"
    "vanityIPs (defaultConfig\<lparr>VanityIPs := ''1.2.3.4,::1''\<rparr>) = []"
    by (simp_all add: defaultConfig_def)
  have f: "find (\<lambda>t. net_ParseIP exampleEnv t = None) (Split ''1.2.3.4,not-an-ip'' CHR '','')
       = Some ''not-an-ip''"
    by (simp add: exampleEnv_def exampleParseIP_def)
  have a: "\<forall>t\<in>set (Split ''1.2.3.4,::1'' CHR '',''). net_ParseIP exampleEnv t \<noteq> None"
    by (simp add: exampleEnv_def exampleParseIP_def)
  have v: "VanityIPs defaultConfig = []"
    "VanityIPs (defaultConfig\<lparr>VanityIPs := ''1.2.3.4,not-an-ip''\<rparr>) = ''1.2.3.4,not-an-ip''"
    "VanityIPs (defaultConfig\<lparr>VanityIPs := ''1.2.3.4,::1''\<rparr>) = ''1.2.3.4,::1''"
    by (simp_all add: defaultConfig_def)
  have p: "map (\<lambda>t. the (net_ParseIP exampleEnv t)) (Split ''1.2.3.4,::1'' CHR '','') =
      [[0, 0, 0, 0, 0, 0, 0, 0, 0, 0, 255, 255, 1, 2, 3, 4],
       [0, 0, 0, 0, 0, 0, 0, 0, 0, 0, 0, 0, 0, 0, 0, 1]]"
    by (simp add: exampleEnv_def exampleParseIP_def)
  from New_vanityIPs[OF h(1), of exampleEnv world0] v(1)
  have 1: "map be_VanityIPs (backendCalls (newCalls world0
      (snd (New exampleEnv defaultConfig world0)))) = [[]]"
    by simp
  from New_vanityIPs[OF h(2), of exampleEnv world0] v(2) f
  have 2: "fst (New exampleEnv (defaultConfig\<lparr>VanityIPs := ''1.2.3.4,not-an-ip''\<rparr>) world0)
       = Return (None, Some (Errorf ''Couldn't parse IP: not-an-ip''))"
    by simp
  from New_vanityIPs[OF h(3), of exampleEnv world0] v(3) a p
  have 3: "map be_VanityIPs (backendCalls (newCalls world0
         (snd (New exampleEnv (defaultConfig\<lparr>VanityIPs := ''1.2.3.4,::1''\<rparr>) world0))))
       = [[[0, 0, 0, 0, 0, 0, 0, 0, 0, 0, 255, 255, 1, 2, 3, 4],
           [0, 0, 0, 0, 0, 0, 0, 0, 0, 0, 0, 0, 0, 0, 0, 1]]]"
    by simp
  have m: "map (net_ParseIP exampleEnv) (Split ''1.2.3.4,::1'' CHR '','') =
       [Some [0, 0, 0, 0, 0, 0, 0, 0, 0, 0, 255, 255, 1, 2, 3, 4],
        Some [0, 0, 0, 0, 0, 0, 0, 0, 0, 0, 0, 0, 0, 0, 0, 1]]"
    by (simp add: exampleEnv_def exampleParseIP_def)
  from h(1) 1 f 2 m 3 show ?thesis by blast
qed

text \<open>
  Claim C6. Canonical-nameserver normalization: the string \<^verbatim>\<open>CanonicalNameservers\<close> is
  split on commas and \<^verbatim>\<open>dns.Fqdn\<close> is applied to each entry, which appends a trailing dot
  iff the entry lacks one; the empty string yields the empty list (for a configuration whose
  unexported normalized field is still nil). The list is read in the server that
  \<^verbatim>\<open>New\<close> returns and in the configuration handed to \<^verbatim>\<open>backend.New\<close>.
\<close>

theorem New_canonicalNameservers:
  assumes "canonicalNameservers c = []"
  shows "(CanonicalNameservers c = [] \<longrightarrow>
           (\<forall>s e. fst (New E c w) = Return (Some s, e) \<longrightarrow> canonicalNameservers (cfg s) = []) \<and>
           (\<forall>b\<in>set (backendCalls (newCalls w (snd (New E c w)))).
              be_CanonicalNameservers b = []))
       \<and> (CanonicalNameservers c \<noteq> [] \<longrightarrow>
           (\<forall>s e. fst (New E c w) = Return (Some s, e) \<longrightarrow>
              canonicalNameservers (cfg s) = map Fqdn (Split (CanonicalNameservers c) CHR '','')) \<and>
           (\<forall>b\<in>set (backendCalls (newCalls w (snd (New E c w)))).
              be_CanonicalNameservers b = map Fqdn (Split (CanonicalNameservers c) CHR '','')))
       \<and> (\<forall>x. Fqdn x = (if x \<noteq> [] \<and> last x = CHR ''.'' then x else x @ ''.''))"
proof -
  let ?new = "newCalls w (snd (New E c w))"
  let ?norm = "if CanonicalNameservers c = [] then []
               else map Fqdn (Split (CanonicalNameservers c) CHR '','')"
  note bc = NewLog_views(1)[OF New_newCalls[of E c w]]
  have cfg0: "canonicalNameservers (cfg s0) = ?norm" if "New_config E c = Inr s0" for s0
    using New_config_Inr(6)[OF that] assms by simp
  have srv: "canonicalNameservers (cfg s) = ?norm"
    if "fst (New E c w) = Return (Some s, e)" for s e
  proof -
    from that have "New E c w = (Return (Some s, e), snd (New E c w))"
      by (metis prod.collapse)
    from New_server(1)[OF this] obtain s0 where "New_config E c = Inr s0" "cfg s = cfg s0"
      by auto
    with cfg0 show ?thesis by simp
  qed
  have be: "be_CanonicalNameservers b = ?norm" if "b \<in> set (backendCalls ?new)" for b
  proof (cases "New_config E c")
    case (Inl e)
    with bc that show ?thesis by simp
  next
    case (Inr s0)
    with bc that have "b = backendConfig c s0" by simp
    with cfg0[OF Inr] show ?thesis by (simp add: backendConfig_def)
  qed
  have fq: "\<forall>x. Fqdn x = (if x \<noteq> [] \<and> last x = CHR ''.'' then x else x @ ''.'')"
    by (simp add: Fqdn_def)
  from srv be fq show ?thesis by simp
qed

text \<open>
  On the concrete environment: no nameservers, and \<^verbatim>\<open>a.bit,b.bit.\<close>, whose first entry
  gets a dot and whose second entry keeps its own.
\<close>

theorem New_canonicalNameservers_witness:
  "canonicalNameservers defaultConfig = []
   \<and> backendCalls (newCalls world0 (snd (New exampleEnv defaultConfig world0))) \<noteq> []
   \<and> map be_CanonicalNameservers
        (backendCalls (newCalls world0 (snd (New exampleEnv defaultConfig world0)))) = [[]]
   \<and> backendCalls (newCalls world0 (snd (New exampleEnv
        (defaultConfig\<lparr>CanonicalNameservers := ''a.bit,b.bit.''\<rparr>) world0))) \<noteq> []
   \<and> map be_CanonicalNameservers (backendCalls (newCalls world0 (snd (New exampleEnv
        (defaultConfig\<lparr>CanonicalNameservers := ''a.bit,b.bit.''\<rparr>) world0)))) =
       [[''a.bit.'', ''b.bit.'']]
   \<and> Fqdn ''a.bit'' = ''a.bit.'' \<and> Fqdn ''b.bit.'' = ''b.bit.''"
proof -
  let ?c = "defaultConfig\<lparr>CanonicalNameservers := ''a.bit,b.bit.''\<rparr>"
  have h: "canonicalNameservers defaultConfig = []" "canonicalNameservers ?c = []"
    "CanonicalNameservers defaultConfig = []" "CanonicalNameservers ?c = ''a.bit,b.bit.''"
    by (simp_all add: defaultConfig_def)
  have n1: "length (backendCalls (newCalls world0 (snd (New exampleEnv defaultConfig world0)))) = 1"
    by (simp add: New_defs example_defs newCalls_def)
  have n2: "length (backendCalls (newCalls world0 (snd (New exampleEnv ?c world0)))) = 1"
    by (simp add: New_defs example_defs newCalls_def)
  note t1 = New_canonicalNameservers[OF h(1), of exampleEnv world0]
  note t2 = New_canonicalNameservers[OF h(2), of exampleEnv world0]
  from t1 h(3) have a: "\<forall>b\<in>set (backendCalls (newCalls world0
      (snd (New exampleEnv defaultConfig world0)))). be_CanonicalNameservers b = []"
    by simp
  from n1 obtain b where "backendCalls (newCalls world0
      (snd (New exampleEnv defaultConfig world0))) = [b]"
    by (auto simp: length_Suc_conv)
  with a have 1: "map be_CanonicalNameservers (backendCalls (newCalls world0
      (snd (New exampleEnv defaultConfig world0)))) = [[]]"
    by simp
  from t2 have fq: "Fqdn ''a.bit'' = ''a.bit.''" "Fqdn ''b.bit.'' = ''b.bit.''"
    by simp_all
  from t2 h(4) fq have 2: "\<forall>b\<in>set (backendCalls (newCalls world0 (snd (New exampleEnv ?c world0)))).
        be_CanonicalNameservers b = [''a.bit.'', ''b.bit.'']"
    by simp
  from n2 obtain b2 where "backendCalls (newCalls world0 (snd (New exampleEnv ?c world0))) = [b2]"
    by (auto simp: length_Suc_conv)
  with 2 have 3: "map be_CanonicalNameservers (backendCalls (newCalls world0
      (snd (New exampleEnv ?c world0)))) = [[''a.bit.'', ''b.bit.'']]"
    by simp
  from h(1) n1 1 n2 3 fq show ?thesis by auto
qed

text \<open>
  Claim C7. A key pair whose public-key path is empty is not loaded, independently for KSK
  and ZSK. If \<^verbatim>\<open>PublicKey\<close> is empty, the only files \<^verbatim>\<open>New\<close> opens are those of the ZSK
  pair (none at all if \<^verbatim>\<open>ZonePublicKey\<close> is empty too), and every engine configuration it
  hands to \<^verbatim>\<open>madns.NewEngine\<close> has no KSK and no KSK private key; and the same with the
  two pairs exchanged.
\<close>

theorem New_skips_key_pair_with_empty_path:
  "(PublicKey c = [] \<longrightarrow>
      (opened (newCalls w (snd (New E c w))) = [] \<or>
       ZonePublicKey c \<noteq> [] \<and>
       (opened (newCalls w (snd (New E c w))) = [cpath E c (ZonePublicKey c)] \<or>
        opened (newCalls w (snd (New E c w))) =
          [cpath E c (ZonePublicKey c), cpath E c (ZonePrivateKey c)])) \<and>
      (\<forall>e\<in>set (engineCalls (newCalls w (snd (New E c w)))). KSK e = None \<and> KSKPrivate e = None))
   \<and> (ZonePublicKey c = [] \<longrightarrow>
      (opened (newCalls w (snd (New E c w))) = [] \<or>
       PublicKey c \<noteq> [] \<and>
       (opened (newCalls w (snd (New E c w))) = [cpath E c (PublicKey c)] \<or>
        opened (newCalls w (snd (New E c w))) =
          [cpath E c (PublicKey c), cpath E c (PrivateKey c)])) \<and>
      (\<forall>e\<in>set (engineCalls (newCalls w (snd (New E c w)))). ZSK e = None \<and> ZSKPrivate e = None))"
proof -
  let ?new = "newCalls w (snd (New E c w))"
  note v = NewLog_views(2,3)[OF New_newCalls[of E c w]]
  from v(1) obtain ks zs where o: "opened ?new = ks @ zs"
    and k: "ks = [] \<or> PublicKey c \<noteq> [] \<and>
          (ks = [cpath E c (PublicKey c)] \<or>
           ks = [cpath E c (PublicKey c), cpath E c (PrivateKey c)])"
    and z: "zs = [] \<or> ZonePublicKey c \<noteq> [] \<and>
          (zs = [cpath E c (ZonePublicKey c)] \<or>
           zs = [cpath E c (ZonePublicKey c), cpath E c (ZonePrivateKey c)])"
    by blast
  have a: "opened ?new = [] \<or> ZonePublicKey c \<noteq> [] \<and>
       (opened ?new = [cpath E c (ZonePublicKey c)] \<or>
        opened ?new = [cpath E c (ZonePublicKey c), cpath E c (ZonePrivateKey c)])"
    if "PublicKey c = []"
  proof -
    from k that have "ks = []" by simp
    with o z show ?thesis by auto
  qed
  have b: "opened ?new = [] \<or> PublicKey c \<noteq> [] \<and>
       (opened ?new = [cpath E c (PublicKey c)] \<or>
        opened ?new = [cpath E c (PublicKey c), cpath E c (PrivateKey c)])"
    if "ZonePublicKey c = []"
  proof -
    from z that have "zs = []" by simp
    with o k show ?thesis by auto
  qed
  from a b v(2) show ?thesis by blast
qed

text \<open>
  On the concrete environment: with no key configured no file is opened and the engine gets
  no key; with only the ZSK configured exactly its two files are opened.
\<close>

theorem New_skips_key_pair_with_empty_path_witness:
  "PublicKey defaultConfig = [] \<and> ZonePublicKey defaultConfig = []
   \<and> opened (newCalls world0 (snd (New exampleEnv defaultConfig world0))) = []
   \<and> engineCalls (newCalls world0 (snd (New exampleEnv defaultConfig world0))) \<noteq> []
   \<and> map (\<lambda>e. (KSK e, KSKPrivate e, ZSK e, ZSKPrivate e))
        (engineCalls (newCalls world0 (snd (New exampleEnv defaultConfig world0)))) =
       [(None, None, None, None)]
   \<and> opened (newCalls world0 (snd (New exampleEnv
        (defaultConfig\<lparr>ZonePublicKey := ''zsk.key'', ZonePrivateKey := ''zsk.private''\<rparr>) world0)))
       = [''/etc/ncdns/zsk.key'', ''/etc/ncdns/zsk.private'']
   \<and> map KSK (engineCalls (newCalls world0 (snd (New exampleEnv
        (defaultConfig\<lparr>ZonePublicKey := ''zsk.key'', ZonePrivateKey := ''zsk.private''\<rparr>) world0))))
       = [None]"
proof -
  let ?z = "defaultConfig\<lparr>ZonePublicKey := ''zsk.key'', ZonePrivateKey := ''zsk.private''\<rparr>"
  have h: "PublicKey defaultConfig = []" "ZonePublicKey defaultConfig = []"
    "PublicKey ?z = []" "ZonePublicKey ?z = ''zsk.key''"
    by (simp_all add: defaultConfig_def)
  have n1: "length (engineCalls (newCalls world0 (snd (New exampleEnv defaultConfig world0)))) = 1"
    by (simp add: New_defs example_defs newCalls_def)
  have n2: "length (opened (newCalls world0 (snd (New exampleEnv ?z world0)))) = 2"
    "length (engineCalls (newCalls world0 (snd (New exampleEnv ?z world0)))) = 1"
    by (simp_all add: New_defs example_defs newCalls_def)
  have p: "cpath exampleEnv ?z (ZonePublicKey ?z) = ''/etc/ncdns/zsk.key''"
    "cpath exampleEnv ?z (ZonePrivateKey ?z) = ''/etc/ncdns/zsk.private''"
    by (simp_all add: cpath_def example_defs)
  note t1 = New_skips_key_pair_with_empty_path[of defaultConfig world0 exampleEnv]
  note t2 = New_skips_key_pair_with_empty_path[of ?z world0 exampleEnv]
  from t1 h(1,2) have 1: "opened (newCalls world0 (snd (New exampleEnv defaultConfig world0))) = []"
    by blast
  from t1 h(1,2) have 2: "\<forall>e\<in>set (engineCalls (newCalls world0
      (snd (New exampleEnv defaultConfig world0)))).
        KSK e = None \<and> KSKPrivate e = None \<and> ZSK e = None \<and> ZSKPrivate e = None"
    by blast
  from t2 h(3) n2(1) p have 3: "opened (newCalls world0 (snd (New exampleEnv ?z world0)))
       = [''/etc/ncdns/zsk.key'', ''/etc/ncdns/zsk.private'']"
    by auto
  from t2 h(3) have "\<forall>e\<in>set (engineCalls (newCalls world0 (snd (New exampleEnv ?z world0)))).
      KSK e = None"
    by blast
  moreover from n2(2) obtain e where "engineCalls (newCalls world0
      (snd (New exampleEnv ?z world0))) = [e]"
    by (auto simp: length_Suc_conv)
  ultimately have 4: "map KSK (engineCalls (newCalls world0 (snd (New exampleEnv ?z world0))))
       = [None]"
    by simp
  from n1 obtain e1 where "engineCalls (newCalls world0
      (snd (New exampleEnv defaultConfig world0))) = [e1]"
    by (auto simp: length_Suc_conv)
  with 2 have 5: "map (\<lambda>e. (KSK e, KSKPrivate e, ZSK e, ZSKPrivate e))
        (engineCalls (newCalls world0 (snd (New exampleEnv defaultConfig world0)))) =
       [(None, None, None, None)]"
    by simp
  from n1 have n1': "engineCalls (newCalls world0 (snd (New exampleEnv defaultConfig world0))) \<noteq> []"
    by auto
  from h(1,2) 1 n1' 5 3 4 show ?thesis by blast
qed

text \<open>
  Claim C8. \<^verbatim>\<open>loadKey\<close> returns an error to its caller, with no key, when the public-key
  file cannot be opened, when it cannot be parsed as a resource record, and when the record
  read is nil or not a DNSKEY. In each case the process goes on and the private-key file is
  not opened. The errors are plain Go errors; the name KeyLoadError is the spec's.
\<close>

theorem loadKey_public_key_errors:
  "(\<forall>e. os_Open E (cpath E (cfg s) fn) = Inl e \<longrightarrow>
      loadKey E s fn pfn w =
        (Return (None, None, Some e), w\<lparr>calls := calls w @ [Call_os_Open (cpath E (cfg s) fn)]\<rparr>))
   \<and> (\<forall>f e. os_Open E (cpath E (cfg s) fn) = Inr f \<and>
            dns_ReadRR E f (cpath E (cfg s) fn) = Inl e \<longrightarrow>
      loadKey E s fn pfn w =
        (Return (None, None, Some e), w\<lparr>calls := calls w @ [Call_os_Open (cpath E (cfg s) fn)]\<rparr>))
   \<and> (\<forall>f rr. os_Open E (cpath E (cfg s) fn) = Inr f \<and>
            dns_ReadRR E f (cpath E (cfg s) fn) = Inr rr \<and> (\<forall>k. rr \<noteq> Some (RR_DNSKEY k)) \<longrightarrow>
      loadKey E s fn pfn w =
        (Return (None, None,
           Some (Errorf ''Loaded record from key file, but it wasn't a DNSKEY'')),
         w\<lparr>calls := calls w @ [Call_os_Open (cpath E (cfg s) fn)]\<rparr>))"
proof -
  have 1: "loadKey E s fn pfn w =
        (Return (None, None, Some e), w\<lparr>calls := calls w @ [Call_os_Open (cpath E (cfg s) fn)]\<rparr>)"
    if "os_Open E (cpath E (cfg s) fn) = Inl e" for e
    using that by (simp add: loadKey_def)
  have 2: "loadKey E s fn pfn w =
        (Return (None, None, Some e), w\<lparr>calls := calls w @ [Call_os_Open (cpath E (cfg s) fn)]\<rparr>)"
    if "os_Open E (cpath E (cfg s) fn) = Inr f" "dns_ReadRR E f (cpath E (cfg s) fn) = Inl e"
    for f e
    using that by (simp add: loadKey_def)
  have 3: "loadKey E s fn pfn w =
        (Return (None, None,
           Some (Errorf ''Loaded record from key file, but it wasn't a DNSKEY'')),
         w\<lparr>calls := calls w @ [Call_os_Open (cpath E (cfg s) fn)]\<rparr>)"
    if "os_Open E (cpath E (cfg s) fn) = Inr f" "dns_ReadRR E f (cpath E (cfg s) fn) = Inr rr"
      "\<forall>k. rr \<noteq> Some (RR_DNSKEY k)" for f rr
  proof (cases rr)
    case None
    with that show ?thesis by (simp add: loadKey_def)
  next
    case (Some x)
    with that(3) obtain t where "x = RR_Other t" by (cases x) auto
    with Some that show ?thesis by (simp add: loadKey_def)
  qed
  from 1 2 3 show ?thesis by blast
qed

text \<open>
  On the concrete environment: a missing file, a file that is not a record, and a file
  holding an A record.
\<close>

theorem loadKey_public_key_errors_witness:
  "os_Open exampleEnv (cpath exampleEnv (cfg exampleServer) ''missing.key'') =
     Inl (LibError ''open: no such file or directory'')
   \<and> fst (loadKey exampleEnv exampleServer ''missing.key'' ''ksk.private'' world0) =
     Return (None, None, Some (LibError ''open: no such file or directory''))
   \<and> os_Open exampleEnv (cpath exampleEnv (cfg exampleServer) ''garbage'') =
     Inr (File ''/etc/ncdns/garbage'')
   \<and> dns_ReadRR exampleEnv (File ''/etc/ncdns/garbage'')
       (cpath exampleEnv (cfg exampleServer) ''garbage'') = Inl (LibError ''dns: not a record'')
   \<and> fst (loadKey exampleEnv exampleServer ''garbage'' ''ksk.private'' world0) =
     Return (None, None, Some (LibError ''dns: not a record''))
   \<and> os_Open exampleEnv (cpath exampleEnv (cfg exampleServer) ''a.rr'') =
     Inr (File ''/etc/ncdns/a.rr'')
   \<and> dns_ReadRR exampleEnv (File ''/etc/ncdns/a.rr'')
       (cpath exampleEnv (cfg exampleServer) ''a.rr'') = Inr (Some (RR_Other ''A''))
   \<and> fst (loadKey exampleEnv exampleServer ''a.rr'' ''ksk.private'' world0) =
     Return (None, None, Some (Errorf ''Loaded record from key file, but it wasn't a DNSKEY''))"
proof -
  have o1: "os_Open exampleEnv (cpath exampleEnv (cfg exampleServer) ''missing.key'') =
     Inl (LibError ''open: no such file or directory'')"
    by (simp add: cpath_def example_defs)
  have o2: "os_Open exampleEnv (cpath exampleEnv (cfg exampleServer) ''garbage'') =
     Inr (File ''/etc/ncdns/garbage'')"
    by (simp add: cpath_def example_defs)
  have r2: "dns_ReadRR exampleEnv (File ''/etc/ncdns/garbage'')
       (cpath exampleEnv (cfg exampleServer) ''garbage'') = Inl (LibError ''dns: not a record'')"
    by (simp add: cpath_def example_defs)
  have o3: "os_Open exampleEnv (cpath exampleEnv (cfg exampleServer) ''a.rr'') =
     Inr (File ''/etc/ncdns/a.rr'')"
    by (simp add: cpath_def example_defs)
  have r3: "dns_ReadRR exampleEnv (File ''/etc/ncdns/a.rr'')
       (cpath exampleEnv (cfg exampleServer) ''a.rr'') = Inr (Some (RR_Other ''A''))"
    by (simp add: cpath_def example_defs)
  have n3: "\<forall>k. Some (RR_Other ''A'') \<noteq> Some (RR_DNSKEY k)" by simp
  from loadKey_public_key_errors[of exampleEnv exampleServer "''missing.key''"
      "''ksk.private''" world0] o1
  have 1: "fst (loadKey exampleEnv exampleServer ''missing.key'' ''ksk.private'' world0) =
     Return (None, None, Some (LibError ''open: no such file or directory''))"
    by simp
  from loadKey_public_key_errors[of exampleEnv exampleServer "''garbage''"
      "''ksk.private''" world0] o2 r2
  have 2: "fst (loadKey exampleEnv exampleServer ''garbage'' ''ksk.private'' world0) =
     Return (None, None, Some (LibError ''dns: not a record''))"
    by simp
  from loadKey_public_key_errors[of exampleEnv exampleServer "''a.rr''"
      "''ksk.private''" world0] o3 r3 n3
  have 3: "fst (loadKey exampleEnv exampleServer ''a.rr'' ''ksk.private'' world0) =
     Return (None, None, Some (Errorf ''Loaded record from key file, but it wasn't a DNSKEY''))"
    by simp
  from o1 1 o2 r2 2 o3 r3 3 show ?thesis by blast
qed

text \<open>
  Claim C4. With a KSK public-key path configured and no ZSK public-key path, \<^verbatim>\<open>New\<close> never
  resolves an address and never binds a socket, and it never succeeds; and when the KSK is
  loaded (the configuration normalizes, the backend is built and \<^verbatim>\<open>loadKey\<close> returns
  without error), \<^verbatim>\<open>New\<close> returns no server and the error
  \<^verbatim>\<open>Must specify ZSK if KSK is specified\<close>.
\<close>

theorem New_KSK_without_ZSK:
  assumes "PublicKey c \<noteq> []" "ZonePublicKey c = []"
  shows "sockets (snd (New E c w)) = sockets w
       \<and> filter isNetworkCall (newCalls w (snd (New E c w))) = []
       \<and> (fst (New E c w) = Exit \<or> returnedError (fst (New E c w)) \<noteq> None)
       \<and> (\<forall>s b k pk. New_config E c = Inr s \<and> backend_New E (backendConfig c s) = Inr b \<and>
             fst (loadKey E s (PublicKey c) (PrivateKey c) w) = Return (k, pk, None) \<longrightarrow>
             fst (New E c w) =
               Return (None, Some (Errorf ''Must specify ZSK if KSK is specified'')))"
proof -
  let ?msg = "Errorf ''Must specify ZSK if KSK is specified''"
  let ?loaded = "\<lambda>s b k pk. New_config E c = Inr s \<and> backend_New E (backendConfig c s) = Inr b \<and>
             fst (loadKey E s (PublicKey c) (PrivateKey c) w) = Return (k, pk, None)"
  have keys: "fst (New_keys E c s (ecfgAtKeys E b) (worldAtKeys E c s w)) = Return (Inl ?msg)"
    if "fst (loadKey E s (PublicKey c) (PrivateKey c) w) = Return (k, pk, None)" for s b k pk
  proof -
    from that loadKey_fst[of E s "PublicKey c" "PrivateKey c" "worldAtKeys E c s w" w]
    have "fst (loadKey E s (PublicKey c) (PrivateKey c) (worldAtKeys E c s w)) =
        Return (k, pk, None)"
      by simp
    from New_keys_KSK_only[OF assms _ this, of "ecfgAtKeys E b"] show ?thesis by simp
  qed
  have nokeys: False
    if "New_config E c = Inr s"
      "New_keys E c s (ecfgAtKeys E b) (worldAtKeys E c s w) = (Return (Inr ecfg'), w3)"
    for s b ecfg' w3
    using New_keys_at(4)[OF that] assms by auto
  have quiet: "sockets w3 = sockets w \<and> filter isNetworkCall (newCalls w w3) = []"
    if "New_config E c = Inr s"
      "New_keys E c s (ecfgAtKeys E b) (worldAtKeys E c s w) = (r3, w3)"
    for s b r3 w3
  proof -
    from New_keys_at(3)[OF that] obtain ks zs where
      "calls w3 = calls w @ [Call_backend_New (backendConfig c s)] @ map Call_os_Open (ks @ zs)"
      by blast
    then have "newCalls w w3 = Call_backend_New (backendConfig c s) # map Call_os_Open (ks @ zs)"
      by (simp add: newCalls_def)
    with New_keys_at(1)[OF that] show ?thesis
      by (simp add: views_of_opens del: map_append)
  qed
  show ?thesis
  proof (cases rule: New_cases[of E c w])
    case (ConfigError e)
    then show ?thesis by (simp add: newCalls_def)
  next
    case (BackendError s e)
    then show ?thesis by (simp add: newCalls_def)
  next
    case (KeyExit s b w3)
    from keys[of s _ _ b] KeyExit(1,3)
    have "\<forall>s b k pk. \<not> ?loaded s b k pk" by auto
    with quiet[OF KeyExit(1,3)] KeyExit(4) show ?thesis by simp
  next
    case (KeyError s b e w3)
    from keys[of s _ _ b] KeyError(1,3)
    have "\<forall>s b k pk. ?loaded s b k pk \<longrightarrow> e = ?msg" by auto
    with quiet[OF KeyError(1,3)] KeyError(4) show ?thesis by simp
  next
    case (EngineError s b ecfg' w3 e)
    from nokeys[OF EngineError(1,3)] show ?thesis ..
  next
    case (Listen s b ecfg' w3 eng)
    from nokeys[OF Listen(1,3)] show ?thesis ..
  qed
qed

text \<open>On the concrete environment, with the KSK pair of \<^verbatim>\<open>/etc/ncdns\<close> and no ZSK.\<close>

theorem New_KSK_without_ZSK_witness:
  "PublicKey (defaultConfig\<lparr>PublicKey := ''ksk.key'', PrivateKey := ''ksk.private''\<rparr>) \<noteq> []
   \<and> ZonePublicKey (defaultConfig\<lparr>PublicKey := ''ksk.key'', PrivateKey := ''ksk.private''\<rparr>) = []
   \<and> fst (loadKey exampleEnv exampleServer ''ksk.key'' ''ksk.private'' world0) =
       Return (Some \<lparr>Algorithm = 8, KeyTag = 257, PublicKeyMaterial = ''AwEAAc''\<rparr>,
               Some (PrivKey ''/etc/ncdns/ksk.private''), None)
   \<and> fst (New exampleEnv
        (defaultConfig\<lparr>PublicKey := ''ksk.key'', PrivateKey := ''ksk.private''\<rparr>) world0) =
       Return (None, Some (Errorf ''Must specify ZSK if KSK is specified''))
   \<and> sockets (snd (New exampleEnv
        (defaultConfig\<lparr>PublicKey := ''ksk.key'', PrivateKey := ''ksk.private''\<rparr>) world0)) = []
   \<and> filter isNetworkCall (newCalls world0 (snd (New exampleEnv
        (defaultConfig\<lparr>PublicKey := ''ksk.key'', PrivateKey := ''ksk.private''\<rparr>) world0))) = []"
proof -
  let ?c = "defaultConfig\<lparr>PublicKey := ''ksk.key'', PrivateKey := ''ksk.private''\<rparr>"
  let ?s = "exampleServer\<lparr>cfg := ?c\<rparr>"
  have h: "PublicKey ?c \<noteq> []" "ZonePublicKey ?c = []"
    by (simp_all add: defaultConfig_def)
  have p: "PublicKey ?c = ''ksk.key''" "PrivateKey ?c = ''ksk.private''"
    by (simp_all add: defaultConfig_def)
  have s: "New_config exampleEnv ?c = Inr ?s"
    by (simp add: New_config_def example_defs)
  have b: "backend_New exampleEnv (backendConfig ?c ?s) = Inr (BackendHandle 1)"
    by (simp add: exampleEnv_def)
  have l0: "fst (loadKey exampleEnv exampleServer ''ksk.key'' ''ksk.private'' world0) =
       Return (Some \<lparr>Algorithm = 8, KeyTag = 257, PublicKeyMaterial = ''AwEAAc''\<rparr>,
               Some (PrivKey ''/etc/ncdns/ksk.private''), None)"
    by (simp add: loadKey_def cpath_def example_defs Fatale_def Let_def)
  have l: "fst (loadKey exampleEnv ?s (PublicKey ?c) (PrivateKey ?c) world0) =
       Return (Some \<lparr>Algorithm = 8, KeyTag = 257, PublicKeyMaterial = ''AwEAAc''\<rparr>,
               Some (PrivKey ''/etc/ncdns/ksk.private''), None)"
    by (simp add: loadKey_def cpath_def example_defs Fatale_def Let_def)
  have w: "sockets world0 = []" by (simp add: world0_def)
  from New_KSK_without_ZSK[OF h, of exampleEnv world0] s b l w
  have "fst (New exampleEnv ?c world0) =
       Return (None, Some (Errorf ''Must specify ZSK if KSK is specified''))
   \<and> sockets (snd (New exampleEnv ?c world0)) = []
   \<and> filter isNetworkCall (newCalls world0 (snd (New exampleEnv ?c world0))) = []"
    by auto
  with h l0 show ?thesis by blast
qed

text \<open>
  Claim C3, as stated, fails: when the TCP socket binds and the UDP bind fails, \<^verbatim>\<open>New\<close>
  returns the error and the TCP socket stays bound.
\<close>

theorem New_leaves_TCP_socket_open:
  "returnedError (fst (New udpBusyEnv defaultConfig world0)) =
     Some (LibError ''bind: address already in use'')
   \<and> sockets world0 = []
   \<and> sockets (snd (New udpBusyEnv defaultConfig world0)) =
       [TCPSocket (TCPListener (TCPAddr '':53''))]"
  by (simp add: New_defs example_defs)

text \<open>
  Claim C3, amended. When \<^verbatim>\<open>New\<close> returns an error it closes nothing: the sockets this
  attempt has bound stay open, and they are exactly the ones held by the server value
  returned with the error (none when no server is returned). No serve loop has been started
  on that server, and the package-level version string has been assigned.
\<close>

theorem New_error_keeps_bound_sockets:
  assumes "New E c w = (r, w')" "returnedError r = Some e"
  shows "sockets w' = sockets w @ (case returnedServer r of None \<Rightarrow> [] | Some s \<Rightarrow> heldSockets s)
       \<and> (returnedServer r = None \<longrightarrow> sockets w' = sockets w)
       \<and> (\<forall>s l. returnedServer r = Some s \<and> tcpListener s = Some l \<longrightarrow>
            TCPSocket l \<in> set (sockets w'))
       \<and> (\<forall>s u. returnedServer r = Some s \<and> udpConn s = Some u \<longrightarrow>
            UDPSocket u \<in> set (sockets w'))
       \<and> (\<forall>s. returnedServer r = Some s \<longrightarrow>
            udpServer s = None \<and> tcpServer s = None \<and> wgStart s = 0)
       \<and> ncdnsVersion w' = versionSummary E"
proof -
  note a = New_sockets[OF assms(1)]
  from a(1) have 1: "returnedServer r = None \<longrightarrow> sockets w' = sockets w" by simp
  have 2: "TCPSocket l \<in> set (sockets w')"
    if "returnedServer r = Some s" "tcpListener s = Some l" for s l
    using a(1) that by (simp add: heldSockets_def)
  have 3: "UDPSocket u \<in> set (sockets w')"
    if "returnedServer r = Some s" "udpConn s = Some u" for s u
    using a(1) that by (simp add: heldSockets_def)
  have 4: "udpServer s = None \<and> tcpServer s = None \<and> wgStart s = 0"
    if "returnedServer r = Some s" for s
    using New_server(2-4)[OF assms(1) that] by simp
  from a 1 2 3 4 show ?thesis by blast
qed

text \<open>On the concrete environment with the UDP port taken.\<close>

theorem New_error_keeps_bound_sockets_witness:
  "returnedError (fst (New udpBusyEnv defaultConfig world0)) =
     Some (LibError ''bind: address already in use'')
   \<and> map_option tcpListener (returnedServer (fst (New udpBusyEnv defaultConfig world0))) =
       Some (Some (TCPListener (TCPAddr '':53'')))
   \<and> map_option heldSockets (returnedServer (fst (New udpBusyEnv defaultConfig world0))) =
       Some [TCPSocket (TCPListener (TCPAddr '':53''))]
   \<and> TCPSocket (TCPListener (TCPAddr '':53'')) \<in>
       set (sockets (snd (New udpBusyEnv defaultConfig world0)))
   \<and> map_option udpServer (returnedServer (fst (New udpBusyEnv defaultConfig world0))) = Some None
   \<and> map_option tcpServer (returnedServer (fst (New udpBusyEnv defaultConfig world0))) = Some None
   \<and> sockets (snd (New udpBusyEnv defaultConfig world0)) =
       sockets world0 @ [TCPSocket (TCPListener (TCPAddr '':53''))]
   \<and> ncdnsVersion (snd (New udpBusyEnv defaultConfig world0)) = ''ncdns v0.0.2''"
proof -
  let ?r = "fst (New udpBusyEnv defaultConfig world0)"
  let ?w = "snd (New udpBusyEnv defaultConfig world0)"
  have n: "New udpBusyEnv defaultConfig world0 = (?r, ?w)" by simp
  have e: "returnedError ?r = Some (LibError ''bind: address already in use'')"
    by (simp add: New_defs example_defs)
  have "\<exists>s. returnedServer ?r = Some s \<and>
      heldSockets s = [TCPSocket (TCPListener (TCPAddr '':53''))] \<and>
      tcpListener s = Some (TCPListener (TCPAddr '':53''))"
    by (simp add: New_defs example_defs heldSockets_def)
  then obtain s where s: "returnedServer ?r = Some s"
    "heldSockets s = [TCPSocket (TCPListener (TCPAddr '':53''))]"
    "tcpListener s = Some (TCPListener (TCPAddr '':53''))"
    by blast
  have v: "versionSummary udpBusyEnv = ''ncdns v0.0.2''"
    by (simp add: versionSummary_def example_defs)
  from New_error_keeps_bound_sockets[OF n e] s v e show ?thesis by simp
qed

text \<open>
  Claim C2. With a public key that parses as a DNSKEY: a private-key file that cannot be
  opened is returned as an error, as the claim says; a private-key file that opens and does
  not parse reaches \<^verbatim>\<open>log.Fatale\<close> and terminates the process, in \<^verbatim>\<open>loadKey\<close> and so in
  \<^verbatim>\<open>New\<close>.
\<close>

theorem loadKey_private_key_parse_failure_exits:
  "fst (loadKey exampleEnv exampleServer ''ksk.key'' ''bad.private'' world0) = Exit
   \<and> fst (New exampleEnv
        (defaultConfig\<lparr>PublicKey := ''ksk.key'', PrivateKey := ''bad.private'',
           ZonePublicKey := ''zsk.key'', ZonePrivateKey := ''zsk.private''\<rparr>) world0) = Exit
   \<and> fst (loadKey exampleEnv exampleServer ''ksk.key'' ''missing.private'' world0) =
       Return (Some \<lparr>Algorithm = 8, KeyTag = 257, PublicKeyMaterial = ''AwEAAc''\<rparr>, None,
               Some (LibError ''open: no such file or directory''))
   \<and> fst (New exampleEnv
        (defaultConfig\<lparr>PublicKey := ''ksk.key'', PrivateKey := ''missing.private'',
           ZonePublicKey := ''zsk.key'', ZonePrivateKey := ''zsk.private''\<rparr>) world0) =
       Return (None, Some (LibError ''open: no such file or directory''))"
  by (simp add: New_defs example_defs)

text \<open>
  Claim C9. With base directory \<^verbatim>\<open>/etc/ncdns\<close> and the relative cookie path
  \<^verbatim>\<open>.cookie\<close>, the path handed to \<^verbatim>\<open>cookieRetriever\<close>, and with it to the backend, is
  \<^verbatim>\<open>.cookie\<close> as configured, not \<^verbatim>\<open>/etc/ncdns/.cookie\<close>; the key file paths of the same
  configuration are resolved against the base directory.
\<close>

theorem New_hands_cookie_path_unresolved:
  "cpath exampleEnv (defaultConfig\<lparr>NamecoinRPCCookiePath := ''.cookie''\<rparr>) ''.cookie'' =
     ''/etc/ncdns/.cookie''
   \<and> map (\<lambda>b. GetAuth (be_NamecoinConn b))
       (backendCalls (newCalls world0 (snd (New exampleEnv
          (defaultConfig\<lparr>NamecoinRPCCookiePath := ''.cookie''\<rparr>) world0)))) =
     [Some (cookieRetriever ''.cookie'')]
   \<and> map_option (\<lambda>s. GetAuth (namecoinConn s)) (returnedServer (fst (New exampleEnv
          (defaultConfig\<lparr>NamecoinRPCCookiePath := ''.cookie''\<rparr>) world0))) =
     Some (Some (cookieRetriever ''.cookie''))
   \<and> opened (newCalls world0 (snd (New exampleEnv
          (defaultConfig\<lparr>NamecoinRPCCookiePath := ''.cookie'',
             ZonePublicKey := ''zsk.key'', ZonePrivateKey := ''zsk.private''\<rparr>) world0))) =
     [''/etc/ncdns/zsk.key'', ''/etc/ncdns/zsk.private'']"
  by (simp add: New_defs example_defs newCalls_def)

text \<open>The definitions that run a schedule of \<^verbatim>\<open>Start\<close>.\<close>

lemmas Start_defs = run.simps step_def mainStep_def runListener_def wgAdd_def Start_init_def
  Fatale_def
  Let_def

text \<open>
  Claim C1. For a server that \<^verbatim>\<open>New\<close> has constructed, under every schedule of the
  caller and the two serve loops, and with a library that calls \<^verbatim>\<open>NotifyStartedFunc\<close> at
  most once per \<^verbatim>\<open>ActivateAndServe\<close>: the barrier counts two once \<^verbatim>\<open>Start\<close> has added to
  it; \<^verbatim>\<open>Start\<close> cannot pass \<^verbatim>\<open>Wait\<close> while one of the loops has not signalled; and
  when \<^verbatim>\<open>Start\<close> has returned, the UDP loop and the TCP loop have each signalled exactly
  once and the barrier is at zero.
\<close>

theorem Start_returns_after_both_loops_signal:
  assumes "fst (New E c w) = Return (Some s, None)"
    and "\<forall>t. lib t \<le> 1"
    and "run lib acts (Start_init s) = Some p"
  shows "(pc p = AtRunUDP \<longrightarrow> wgStart (srv p) = 2)
       \<and> (pc p = AtWait \<and> (notified (udpLoop p) = 0 \<or> notified (tcpLoop p) = 0) \<longrightarrow>
            step lib Main p = None)
       \<and> (\<forall>r. pc p = Returned r \<longrightarrow>
            notified (udpLoop p) = 1 \<and> notified (tcpLoop p) = 1 \<and> wgStart (srv p) = 0)"
proof -
  from assms(1) have "New E c w = (Return (Some s, None), snd (New E c w))"
    by (metis prod.collapse)
  from New_server(2)[OF this] have "wgStart s = 0" by simp
  from startInv_run[OF startInv_init[OF this] assms(3)]
  have inv: "barrierInv lib (wgStart (srv p)) (pc p) (status (udpLoop p)) (notified (udpLoop p))
       (status (tcpLoop p)) (notified (tcpLoop p))"
    by (simp add: startInv_def)
  from assms(2) have l: "lib UDP \<le> 1" "lib TCP \<le> 1" by simp_all
  from inv have 1: "pc p = AtRunUDP \<longrightarrow> wgStart (srv p) = 2"
    by (auto simp: barrierInv_def)
  have 2: "step lib Main p = None"
    if "pc p = AtWait" "notified (udpLoop p) = 0 \<or> notified (tcpLoop p) = 0"
  proof -
    from inv l that have "wgStart (srv p) \<noteq> 0"
      by (auto simp: barrierInv_def)
    with that(1) show ?thesis by (simp add: step_def mainStep_def)
  qed
  have 3: "notified (udpLoop p) = 1 \<and> notified (tcpLoop p) = 1 \<and> wgStart (srv p) = 0"
    if "pc p = Returned r" for r
    using inv l that by (auto simp: barrierInv_def)
  from 1 2 3 show ?thesis by blast
qed

text \<open>
  On the server constructed in the concrete environment: a schedule on which \<^verbatim>\<open>Start\<close>
  returns, and one on which it is blocked after the TCP loop alone has signalled.
\<close>

theorem Start_returns_after_both_loops_signal_witness:
  "fst (New exampleEnv defaultConfig world0) =
     Return (Some (the (returnedServer (fst (New exampleEnv defaultConfig world0)))), None)
   \<and> map_option pc (run (\<lambda>t. 1) [Main, Main, Main, Notify TCP, Notify UDP, Main, Main]
        (Start_init (the (returnedServer (fst (New exampleEnv defaultConfig world0)))))) =
       Some (Returned None)
   \<and> map_option (\<lambda>p. (notified (udpLoop p), notified (tcpLoop p), wgStart (srv p)))
        (run (\<lambda>t. 1) [Main, Main, Main, Notify TCP, Notify UDP, Main, Main]
        (Start_init (the (returnedServer (fst (New exampleEnv defaultConfig world0)))))) =
       Some (1, 1, 0)
   \<and> map_option (\<lambda>p. (pc p, step (\<lambda>t. 1) Main p))
        (run (\<lambda>t. 1) [Main, Main, Main, Notify TCP]
        (Start_init (the (returnedServer (fst (New exampleEnv defaultConfig world0)))))) =
       Some (AtWait, None)"
proof -
  let ?s = "the (returnedServer (fst (New exampleEnv defaultConfig world0)))"
  let ?lib = "\<lambda>t::transport. 1 :: nat"
  have h1: "fst (New exampleEnv defaultConfig world0) = Return (Some ?s, None)"
    by (simp add: New_defs example_defs)
  have h2: "\<forall>t. ?lib t \<le> 1" by simp
  have w0: "wgStart ?s = 0"
    by (simp add: New_defs example_defs)
  have "\<exists>p. run ?lib [Main, Main, Main, Notify TCP, Notify UDP, Main, Main] (Start_init ?s)
      = Some p \<and> pc p = Returned None"
    by (simp add: Start_defs w0)
  then obtain p where p: "run ?lib [Main, Main, Main, Notify TCP, Notify UDP, Main, Main]
      (Start_init ?s) = Some p" "pc p = Returned None"
    by blast
  have "\<exists>q. run ?lib [Main, Main, Main, Notify TCP] (Start_init ?s) = Some q \<and> pc q = AtWait
      \<and> notified (udpLoop q) = 0"
    by (simp add: Start_defs w0)
  then obtain q where q: "run ?lib [Main, Main, Main, Notify TCP] (Start_init ?s) = Some q"
    "pc q = AtWait" "notified (udpLoop q) = 0"
    by blast
  from Start_returns_after_both_loops_signal[OF h1 h2 p(1)] p(2)
  have a: "notified (udpLoop p) = 1 \<and> notified (tcpLoop p) = 1 \<and> wgStart (srv p) = 0"
    by simp
  from Start_returns_after_both_loops_signal[OF h1 h2 q(1)] q(2,3)
  have b: "step ?lib Main q = None"
    by simp
  from h1 p a q b show ?thesis by simp
qed

text \<open>
  Claim C10. Whatever the schedule, a value returned by \<^verbatim>\<open>Start\<close> is nil. A listener
  whose \<^verbatim>\<open>ActivateAndServe\<close> returns an error terminates the process through
  \<^verbatim>\<open>log.Fatale\<close> and leaves the caller of \<^verbatim>\<open>Start\<close> where it is; a terminated process
  makes no further step, so that failure never becomes a return value.
\<close>

theorem Start_returns_nil_only:
  assumes "run lib acts (Start_init s) = Some p"
  shows "(\<forall>r. pc p = Returned r \<longrightarrow> r = None)
       \<and> (\<forall>t e p'. step lib (ServeReturns t (Some e)) p = Some p' \<longrightarrow>
            crashed p' = Some ProcessExit \<and> pc p' = pc p)
       \<and> (crashed p \<noteq> None \<longrightarrow> (\<forall>a. step lib a p = None))"
proof -
  have "\<forall>r. pc (Start_init s) = Returned r \<longrightarrow> r = None"
    by (simp add: Start_init_def)
  from returned_nil_run[OF this assms] have 1: "\<forall>r. pc p = Returned r \<longrightarrow> r = None" .
  have 2: "crashed p' = Some ProcessExit \<and> pc p' = pc p"
    if "step lib (ServeReturns t (Some e)) p = Some p'" for t e p'
    using that by (auto simp: step_def Fatale_def split: if_splits)
  have 3: "crashed p \<noteq> None \<longrightarrow> (\<forall>a. step lib a p = None)"
    by (simp add: step_def)
  from 1 2 3 show ?thesis by blast
qed

text \<open>
  A schedule on which \<^verbatim>\<open>Start\<close> returns, and one on which the TCP listener fails before
  signalling: the process exits with the caller still in \<^verbatim>\<open>Wait\<close>.
\<close>

theorem Start_returns_nil_only_witness:
  "map_option pc (run (\<lambda>t. 1) [Main, Main, Main, Notify UDP, Notify TCP, Main, Main]
        (Start_init exampleServer)) = Some (Returned None)
   \<and> map_option (\<lambda>p. (pc p, crashed p))
        (run (\<lambda>t. 1) [Main, Main, Main, Notify UDP,
                       ServeReturns TCP (Some (LibError ''accept: use of closed connection''))]
        (Start_init exampleServer)) = Some (AtWait, Some ProcessExit)
   \<and> run (\<lambda>t. 1) [Main, Main, Main, Notify UDP,
                   ServeReturns TCP (Some (LibError ''accept: use of closed connection'')), Main]
        (Start_init exampleServer) = None"
proof -
  let ?lib = "\<lambda>t::transport. 1 :: nat"
  let ?e = "LibError ''accept: use of closed connection''"
  have w0: "wgStart exampleServer = 0" by (simp add: exampleServer_def)
  have "\<exists>p. run ?lib [Main, Main, Main, Notify UDP, Notify TCP, Main, Main]
      (Start_init exampleServer) = Some p \<and> isReturned (pc p)"
    by (simp add: Start_defs w0)
  then obtain p where p: "run ?lib [Main, Main, Main, Notify UDP, Notify TCP, Main, Main]
      (Start_init exampleServer) = Some p" "isReturned (pc p)"
    by blast
  from p(2) obtain r where r: "pc p = Returned r" by (cases "pc p") simp_all
  with Start_returns_nil_only[OF p(1)] have 1: "pc p = Returned None" by simp
  have "\<exists>q q'. run ?lib [Main, Main, Main, Notify UDP] (Start_init exampleServer) = Some q
      \<and> pc q = AtWait \<and> step ?lib (ServeReturns TCP (Some ?e)) q = Some q'"
    by (simp add: Start_defs w0)
  then obtain q q' where q: "run ?lib [Main, Main, Main, Notify UDP] (Start_init exampleServer)
      = Some q" "pc q = AtWait" "step ?lib (ServeReturns TCP (Some ?e)) q = Some q'"
    by blast
  from Start_returns_nil_only[OF q(1)] q(2,3)
  have 2: "crashed q' = Some ProcessExit" "pc q' = AtWait" by auto
  have run_app: "run ?lib (xs @ ys) x = (case run ?lib xs x of None \<Rightarrow> None
      | Some y \<Rightarrow> run ?lib ys y)" for xs ys x
    by (induction xs arbitrary: x) (auto split: option.splits)
  from run_app[of "[Main, Main, Main, Notify UDP]" "[ServeReturns TCP (Some ?e)]"
      "Start_init exampleServer"] q
  have 3: "run ?lib [Main, Main, Main, Notify UDP, ServeReturns TCP (Some ?e)]
      (Start_init exampleServer) = Some q'"
    by simp
  from Start_returns_nil_only[OF 3] 2(1) have "step ?lib Main q' = None" by simp
  with run_app[of "[Main, Main, Main, Notify UDP, ServeReturns TCP (Some ?e)]" "[Main]"
      "Start_init exampleServer"] 3
  have 4: "run ?lib [Main, Main, Main, Notify UDP, ServeReturns TCP (Some ?e), Main]
      (Start_init exampleServer) = None"
    by simp
  from p(1) 1 3 2 4 show ?thesis by simp
qed

end
